theory Spec2Isabelle
  imports Main "HOL-Library.Word"
begin

section \<open>Pattern matcher\<close>

text \<open>
  C strings are modelled as \<open>string\<close> (the characters before the terminating NUL), and a
  \<open>const char *\<close> walking over a string as the suffix it still points at: \<open>*p\<close> is the
  head of the suffix (NUL when the suffix is empty) and \<open>p++\<close> is its tail.

  \<open>ezctest_wildcard_match\<close> keeps a backtrack point \<open>(star_p, star_s)\<close>, which is NULL
  until the first \<open>*\<close> of the pattern is met. It is modelled as an optional pair holding
  \<open>star_p + 1\<close> (the pattern behind the star) and \<open>star_s\<close>.
\<close>

function wildcard_loop :: "string \<Rightarrow> string \<Rightarrow> (string \<times> string) option \<Rightarrow> bool" where
  "wildcard_loop p s star =
     (case s of
        [] \<Rightarrow> dropWhile (\<lambda>c. c = CHR ''*'') p = []
      | c # s' \<Rightarrow>
          (if p \<noteq> [] \<and> hd p = CHR ''*'' then wildcard_loop (tl p) s (Some (tl p, s))
           else if p \<noteq> [] \<and> (hd p = CHR ''?'' \<or> hd p = c) then wildcard_loop (tl p) s' star
           else (case star of
                   Some (star_p1, star_s) \<Rightarrow>
                     wildcard_loop star_p1 (tl star_s) (Some (star_p1, tl star_s))
                 | None \<Rightarrow> False)))"
  by pat_completeness auto
termination
  by (relation "measures
        [\<lambda>(p, s, star). max (length s) (case star of None \<Rightarrow> 0 | Some (sp, ss) \<Rightarrow> length ss),
         \<lambda>(p, s, star). length p]")
     (auto split: option.splits)

declare wildcard_loop.simps [simp del]

definition ezctest_wildcard_match :: "string \<Rightarrow> string \<Rightarrow> bool" where
  "ezctest_wildcard_match pattern str = wildcard_loop pattern str None"

text \<open>
  The reference semantics of the wildcard grammar, written from its description: \<open>*\<close>
  matches any run of characters (also the empty one), \<open>?\<close> matches exactly one character,
  every other character matches itself.
\<close>

fun glob_spec :: "string \<Rightarrow> string \<Rightarrow> bool" where
  "glob_spec [] s = (s = [])"
| "glob_spec (c # p) [] = (c = CHR ''*'' \<and> glob_spec p [])"
| "glob_spec (c # p) (d # s) =
     (if c = CHR ''*'' then glob_spec p (d # s) \<or> glob_spec (c # p) s
      else (c = CHR ''?'' \<or> c = d) \<and> glob_spec p s)"

text \<open>
  \<open>strtok(rest, ":")\<close>: skip leading delimiters; no token is left when the string ends
  there; otherwise the token runs to the next delimiter, which is overwritten by NUL, and
  the scan resumes behind it.
\<close>

definition strtok_colon :: "string \<Rightarrow> (string \<times> string) option" where
  "strtok_colon rest =
     (let start = dropWhile (\<lambda>c. c = CHR '':'') rest in
      if start = [] then None
      else Some (takeWhile (\<lambda>c. c \<noteq> CHR '':'') start,
                 drop 1 (dropWhile (\<lambda>c. c \<noteq> CHR '':'') start)))"

function filter_loop :: "string \<Rightarrow> string \<Rightarrow> bool" where
  "filter_loop rest full_name =
     (case strtok_colon rest of
        None \<Rightarrow> False
      | Some (token, rest') \<Rightarrow>
          (if hd token = CHR ''-''
           then (if ezctest_wildcard_match (tl token) full_name then False
                 else filter_loop rest' full_name)
           else (if ezctest_wildcard_match token full_name then True
                 else filter_loop rest' full_name)))"
  by pat_completeness auto
termination
proof -
  have shorter: "length rest' < length rest"
    if a: "strtok_colon rest = Some (token, rest')" for rest token rest'
  proof -
    let ?start = "dropWhile (\<lambda>c. c = CHR '':'') rest"
    from a have ne: "?start \<noteq> []" and r: "rest' = drop 1 (dropWhile (\<lambda>c. c \<noteq> CHR '':'') ?start)"
      by (auto simp: strtok_colon_def Let_def split: if_splits)
    have "length rest' \<le> length (dropWhile (\<lambda>c. c \<noteq> CHR '':'') ?start)"
      using r by simp
    moreover have "length (dropWhile (\<lambda>c. c \<noteq> CHR '':'') ?start) < length ?start"
    proof (cases ?start)
      case Nil
      with ne show ?thesis by simp
    next
      case (Cons c cs)
      have "\<not> (hd ?start = CHR '':'')"
        using hd_dropWhile [OF ne] by simp
      with Cons have "c \<noteq> CHR '':''" by simp
      then have "dropWhile (\<lambda>c. c \<noteq> CHR '':'') (c # cs) = dropWhile (\<lambda>c. c \<noteq> CHR '':'') cs"
        by simp
      then show ?thesis
        using Cons length_dropWhile_le [of "\<lambda>c. c \<noteq> CHR '':''" cs] by simp
    qed
    moreover have "length ?start \<le> length rest"
      by (rule length_dropWhile_le)
    ultimately show ?thesis by linarith
  qed
  show ?thesis
    by (relation "measure (\<lambda>(rest, full_name). length rest)") (auto dest: shorter)
qed

declare filter_loop.simps [simp del]

definition EZCTEST_MAX_NAME_LENGTH :: nat where
  "EZCTEST_MAX_NAME_LENGTH = 128"

text \<open>
  \<open>filter\<close> may be NULL (\<open>None\<close>). \<open>snprintf\<close> into \<open>full_name\<close> keeps at most
  \<open>sizeof full_name - 1\<close> characters, \<open>strncpy\<close> into \<open>filter_copy\<close> at most
  \<open>sizeof filter_copy - 1\<close>.
\<close>

definition ezctest_matches_filter :: "string \<Rightarrow> string \<Rightarrow> string option \<Rightarrow> bool" where
  "ezctest_matches_filter suite_name test_name flt =
     (case flt of
        None \<Rightarrow> True
      | Some f \<Rightarrow>
          if f = [] then True
          else
            let full_name = take (EZCTEST_MAX_NAME_LENGTH * 2 - 1)
                              (suite_name @ ''.'' @ test_name);
                filter_copy = take (EZCTEST_MAX_NAME_LENGTH * 4 - 1) f
            in filter_loop filter_copy full_name)"


section \<open>Data model\<close>

text \<open>
  The embedding follows the hosted POSIX build compiled as C (\<open>EZCTEST_PLATFORM_LINUX\<close>,
  no \<open>_MSC_VER\<close>, no \<open>__cplusplus\<close>, no \<open>EZCTEST_STM32_MODE\<close>): child processes
  are made by \<open>fork\<close>, and the test function is called without an exception handler
  around it.

  A test, setup or teardown function (\<open>void f(void)\<close>) is modelled by the statements it
  runs that are visible to the framework: the assertion macros with the value their
  condition evaluates to, \<open>DEFER\<close> with the callback (\<open>None\<close> is a NULL pointer) and its
  data, and any other statement, identified by a label. Cleanup callbacks are identified
  by a number.

  An \<open>int\<close> that the code only tests for zero (\<open>enabled\<close>, \<open>failed\<close>, the two
  failure flags, \<open>has_jumped\<close>, \<open>shuffle\<close>, \<open>list_tests\<close>) is a \<open>bool\<close>. The five
  counters of \<open>ezctest_result_t\<close> are \<open>int\<close> variables that \<open>++\<close> increments without
  a bound, so they are 32-bit words: \<open>+ 1\<close> wraps around, and \<open>sint\<close> is the value that
  \<open>%d\<close> prints and that a comparison with 0 reads. The other \<open>int\<close> values are only
  compared, or counted up to the number of registered tests, and are integers. Elapsed
  times are left out: they are printed and never compared.
\<close>

datatype stmt =
    STEP nat
  | EXPECT_TRUE bool
  | ASSERT_TRUE bool
  | DEFER "nat option" nat

type_synonym ezctest_func_t = "stmt list"

record ezctest_result_t =
  total_tests :: "32 word"
  passed_tests :: "32 word"
  failed_tests :: "32 word"
  total_assertions :: "32 word"
  failed_assertions :: "32 word"

record ezctest_info_t =
  suite_name :: string
  test_name :: string
  test_func :: ezctest_func_t
  enabled :: bool
  failed :: bool

record ezctest_config_t =
  cfg_filter :: "string option"
  cfg_repeat :: int
  cfg_shuffle :: bool
  cfg_color :: int
  cfg_list_tests :: bool
  cfg_no_exec :: int

record ezctest_fixture_t =
  fx_suite_name :: string
  fx_setup :: "ezctest_func_t option"
  fx_teardown :: "ezctest_func_t option"

text \<open>
  What a run prints and which user functions it calls is recorded, in order, in a trace.
  \<open>AssertionsNALine\<close> is the line of the \<open>printf\<close> inside the \<open>#if 0\<close> block of
  \<open>ezctest_run_all_tests_internal\<close>; the preprocessor removes that call, so no function
  below emits it.
\<close>

datatype event =
    RunLine string string
  | OkLine string string
  | FailedLine string string
  | FailureLine
  | TerminatedByAssertLine
  | DeferStackFullLine
  | MaxTestsLine
  | MaxFixturesLine
  | ForkFailedLine
  | WorkerNotFoundLine int int
  | ListSuiteLine string
  | ListTestLine string
  | ListTotalLine int
  | NoTestsLine
  | StartLine int int bool
  | IterationLine int int
  | FallbackLine
  | AbnormalExitLines int
  | AbnormalFailedLine string string
  | RanLine int
  | PassedLine int
  | FailedCountLine int
  | FailedListLine string string
  | AssertionsLine int int int
  | AssertionsNALine
  | AllPassedLine int
  | SetupCalled string
  | TeardownCalled string
  | CleanupCalled nat nat
  | StmtExecuted nat

record globals =
  g_ezctest_registry :: "ezctest_info_t list"
  g_ezctest_current_failed :: bool
  g_ezctest_current_assertion_failed :: bool
  g_ezctest_result :: ezctest_result_t
  g_ezctest_config :: ezctest_config_t
  g_ezctest_fixtures :: "ezctest_fixture_t list"
  g_ezctest_defer_stack :: "(nat option \<times> nat) list"
  has_jumped :: bool
  g_ezctest_worker_index :: int
  trace :: "event list"

text \<open>
  What the process cannot decide itself: whether a debugger is attached, what \<open>rand\<close>
  returns at its n-th call, and how the \<open>fork\<close> for the test with a given worker index
  in a given iteration ends.
\<close>

datatype fork_result = ForkFailed | ChildExited | ChildSignaled nat | ChildOther

record env =
  debugger_attached :: bool
  rand_value :: "nat \<Rightarrow> nat"
  fork_outcome :: "nat \<Rightarrow> nat \<Rightarrow> fork_result"

definition emit :: "event \<Rightarrow> globals \<Rightarrow> globals" where
  "emit e g = g\<lparr>trace := trace g @ [e]\<rparr>"

section \<open>Registry\<close>

definition EZCTEST_MAX_TESTS :: nat where
  "EZCTEST_MAX_TESTS = 1024"

definition EZCTEST_MAX_FIXTURES :: nat where
  "EZCTEST_MAX_FIXTURES = 64"

definition EZCTEST_MAX_DEFER_CALLBACKS :: nat where
  "EZCTEST_MAX_DEFER_CALLBACKS = 32"

text \<open>
  \<open>ezctest_register\<close> does not write the field \<open>failed\<close>; the registry is a static
  array, so the field of a fresh entry is 0.
\<close>

definition ezctest_register :: "string \<Rightarrow> string \<Rightarrow> ezctest_func_t \<Rightarrow> globals \<Rightarrow> int \<times> globals" where
  "ezctest_register sn tn f g =
     (if length (g_ezctest_registry g) \<ge> EZCTEST_MAX_TESTS then (0, emit MaxTestsLine g)
      else (1, g\<lparr>g_ezctest_registry := g_ezctest_registry g @
                  [\<lparr>suite_name = sn, test_name = tn, test_func = f,
                    enabled = True, failed = False\<rparr>]\<rparr>))"

text \<open>
  The search loops of \<open>ezctest_register_setup\<close> and \<open>ezctest_register_teardown\<close>: the
  first binding whose name equals \<open>suite_name\<close> (\<open>strcmp\<close>) is updated in place;
  \<open>None\<close> when the loop ends without a match.
\<close>

fun set_setup :: "string \<Rightarrow> ezctest_func_t option \<Rightarrow> ezctest_fixture_t list
    \<Rightarrow> ezctest_fixture_t list option" where
  "set_setup sn f [] = None"
| "set_setup sn f (x # xs) =
     (if fx_suite_name x = sn then Some (x\<lparr>fx_setup := f\<rparr> # xs)
      else map_option (\<lambda>ys. x # ys) (set_setup sn f xs))"

fun set_teardown :: "string \<Rightarrow> ezctest_func_t option \<Rightarrow> ezctest_fixture_t list
    \<Rightarrow> ezctest_fixture_t list option" where
  "set_teardown sn f [] = None"
| "set_teardown sn f (x # xs) =
     (if fx_suite_name x = sn then Some (x\<lparr>fx_teardown := f\<rparr> # xs)
      else map_option (\<lambda>ys. x # ys) (set_teardown sn f xs))"

definition ezctest_register_setup :: "string \<Rightarrow> ezctest_func_t option \<Rightarrow> globals \<Rightarrow> int \<times> globals" where
  "ezctest_register_setup sn f g =
     (case set_setup sn f (g_ezctest_fixtures g) of
        Some fs \<Rightarrow> (1, g\<lparr>g_ezctest_fixtures := fs\<rparr>)
      | None \<Rightarrow>
          if length (g_ezctest_fixtures g) \<ge> EZCTEST_MAX_FIXTURES
          then (0, emit MaxFixturesLine g)
          else (1, g\<lparr>g_ezctest_fixtures := g_ezctest_fixtures g @
                      [\<lparr>fx_suite_name = sn, fx_setup = f, fx_teardown = None\<rparr>]\<rparr>))"

definition ezctest_register_teardown :: "string \<Rightarrow> ezctest_func_t option \<Rightarrow> globals \<Rightarrow> int \<times> globals" where
  "ezctest_register_teardown sn f g =
     (case set_teardown sn f (g_ezctest_fixtures g) of
        Some fs \<Rightarrow> (1, g\<lparr>g_ezctest_fixtures := fs\<rparr>)
      | None \<Rightarrow>
          if length (g_ezctest_fixtures g) \<ge> EZCTEST_MAX_FIXTURES
          then (0, emit MaxFixturesLine g)
          else (1, g\<lparr>g_ezctest_fixtures := g_ezctest_fixtures g @
                      [\<lparr>fx_suite_name = sn, fx_setup = None, fx_teardown = f\<rparr>]\<rparr>))"

definition ezctest_find_fixture :: "string \<Rightarrow> globals \<Rightarrow> ezctest_fixture_t option" where
  "ezctest_find_fixture sn g = find (\<lambda>x. fx_suite_name x = sn) (g_ezctest_fixtures g)"

section \<open>Cleanup stack\<close>

definition ezctest_defer_add :: "nat option \<Rightarrow> nat \<Rightarrow> globals \<Rightarrow> int \<times> globals" where
  "ezctest_defer_add func data g =
     (if length (g_ezctest_defer_stack g) \<ge> EZCTEST_MAX_DEFER_CALLBACKS
      then (0, emit DeferStackFullLine g)
      else (1, g\<lparr>g_ezctest_defer_stack := g_ezctest_defer_stack g @ [(func, data)]\<rparr>))"

text \<open>
  \<open>ezctest_defer_execute\<close> walks the stack from index \<open>count - 1\<close> down to 0 and calls
  every callback that is not NULL.
\<close>

fun defer_execute_loop :: "(nat option \<times> nat) list \<Rightarrow> globals \<Rightarrow> globals" where
  "defer_execute_loop [] g = g"
| "defer_execute_loop ((func, data) # below) g =
     defer_execute_loop below
       (case func of Some f \<Rightarrow> emit (CleanupCalled f data) g | None \<Rightarrow> g)"

definition ezctest_defer_execute :: "globals \<Rightarrow> globals" where
  "ezctest_defer_execute g = defer_execute_loop (rev (g_ezctest_defer_stack g)) g"

definition ezctest_defer_clear :: "globals \<Rightarrow> globals" where
  "ezctest_defer_clear g = g\<lparr>g_ezctest_defer_stack := []\<rparr>"

definition DEFER_macro :: "nat option \<Rightarrow> nat \<Rightarrow> globals \<Rightarrow> globals" where
  "DEFER_macro func data g =
     (case ezctest_defer_add func data g of
        (ok, g') \<Rightarrow> if ok = 0 then emit DeferStackFullLine g' else g')"

section \<open>Assertions and the test body\<close>

definition ezctest_assertion_failed :: "bool \<Rightarrow> globals \<Rightarrow> globals" where
  "ezctest_assertion_failed is_fatal g =
     (let r = g_ezctest_result g;
          g1 = g\<lparr>g_ezctest_result :=
                  r\<lparr>total_assertions := total_assertions r + 1,
                    failed_assertions := failed_assertions r + 1\<rparr>,
                g_ezctest_current_assertion_failed := True\<rparr>;
          g2 = emit FailureLine g1
      in if is_fatal then g2\<lparr>g_ezctest_current_failed := True\<rparr> else g2)"

definition ezctest_assertion_passed :: "globals \<Rightarrow> globals" where
  "ezctest_assertion_passed g =
     g\<lparr>g_ezctest_result :=
         (g_ezctest_result g)\<lparr>total_assertions := total_assertions (g_ezctest_result g) + 1\<rparr>\<rparr>"

text \<open>
  Running the statements of one function. A failing \<open>ASSERT_*\<close> records the failure and
  then leaves the function: by \<open>longjmp\<close> to the resumption point when \<open>has_jumped\<close> is
  set, by a plain \<open>return\<close> otherwise.
\<close>

datatype exit_kind = Returned | Jumped

fun exec_stmts :: "stmt list \<Rightarrow> globals \<Rightarrow> exit_kind \<times> globals" where
  "exec_stmts [] g = (Returned, g)"
| "exec_stmts (STEP l # rest) g = exec_stmts rest (emit (StmtExecuted l) g)"
| "exec_stmts (EXPECT_TRUE c # rest) g =
     exec_stmts rest (if c then ezctest_assertion_passed g else ezctest_assertion_failed False g)"
| "exec_stmts (ASSERT_TRUE c # rest) g =
     (if c then exec_stmts rest (ezctest_assertion_passed g)
      else (let g' = ezctest_assertion_failed True g
            in if has_jumped g' then (Jumped, g') else (Returned, g')))"
| "exec_stmts (DEFER func data # rest) g = exec_stmts rest (DEFER_macro func data g)"


section \<open>Execution engine\<close>

text \<open>
  \<open>ezctest_run_test_with_exception_guard\<close>: the resumption point is armed, then setup and
  the test function run inside the \<open>setjmp(...) == 0\<close> branch. The result is
  \<open>has_exception\<close>: 0 after a normal return, 2 when control came back through
  \<open>longjmp\<close>.
\<close>

definition call_fixture :: "ezctest_func_t option \<Rightarrow> event \<Rightarrow> globals \<Rightarrow> exit_kind \<times> globals" where
  "call_fixture f ev g =
     (case f of None \<Rightarrow> (Returned, g) | Some body \<Rightarrow> exec_stmts body (emit ev g))"

definition ezctest_run_test_with_exception_guard ::
    "ezctest_info_t \<Rightarrow> ezctest_fixture_t option \<Rightarrow> globals \<Rightarrow> int \<times> globals" where
  "ezctest_run_test_with_exception_guard test fixture g =
     (let g1 = g\<lparr>has_jumped := True\<rparr>;
          (k1, g2) = (case fixture of
                        None \<Rightarrow> (Returned, g1)
                      | Some fx \<Rightarrow> call_fixture (fx_setup fx) (SetupCalled (fx_suite_name fx)) g1)
      in if k1 = Jumped then (2, g2)
         else (let (k2, g3) = exec_stmts (test_func test) g2
               in if k2 = Jumped then (2, g3) else (0, g3)))"

definition current_test_failed :: "globals \<Rightarrow> bool" where
  "current_test_failed g = (g_ezctest_current_failed g \<or> g_ezctest_current_assertion_failed g)"

definition ezctest_run_test :: "ezctest_info_t \<Rightarrow> globals \<Rightarrow> globals" where
  "ezctest_run_test test g =
     (let is_worker = (g_ezctest_worker_index g \<ge> 0);
          g1 = ezctest_defer_clear
                 (g\<lparr>g_ezctest_current_failed := False,
                    g_ezctest_current_assertion_failed := False\<rparr>);
          g2 = (if \<not> is_worker then emit (RunLine (suite_name test) (test_name test)) g1 else g1);
          fixture = ezctest_find_fixture (suite_name test) g2;
          (exception_type, g3) = ezctest_run_test_with_exception_guard test fixture g2;
          g4 = g3\<lparr>has_jumped := False\<rparr>;
          g5 = ezctest_defer_clear (ezctest_defer_execute g4);
          g6 = (case fixture of
                  None \<Rightarrow> g5
                | Some fx \<Rightarrow>
                    snd (call_fixture (fx_teardown fx) (TeardownCalled (fx_suite_name fx)) g5));
          g7 = (if exception_type = 2 then emit TerminatedByAssertLine g6 else g6);
          r = g_ezctest_result g7
      in if current_test_failed g7
         then (emit (FailedLine (suite_name test) (test_name test)) g7)
                \<lparr>g_ezctest_result := r\<lparr>failed_tests := failed_tests r + 1\<rparr>\<rparr>
         else (emit (OkLine (suite_name test) (test_name test)) g7)
                \<lparr>g_ezctest_result := r\<lparr>passed_tests := passed_tests r + 1\<rparr>\<rparr>)"

definition selected :: "globals \<Rightarrow> ezctest_info_t \<Rightarrow> bool" where
  "selected g t = (enabled t \<and>
     ezctest_matches_filter (suite_name t) (test_name t) (cfg_filter (g_ezctest_config g)))"

text \<open>
  \<open>ezctest_worker_mode\<close>: the loop over the registry counts the enabled tests that match
  the filter in \<open>test_count\<close>, runs the one whose count equals \<open>worker_index\<close> and
  returns at once.
\<close>

fun worker_loop :: "ezctest_info_t list \<Rightarrow> int \<Rightarrow> int \<Rightarrow> globals \<Rightarrow> int \<times> globals" where
  "worker_loop [] test_count worker_index g =
     (1, emit (WorkerNotFoundLine worker_index test_count) g)"
| "worker_loop (t # ts) test_count worker_index g =
     (if \<not> enabled t then worker_loop ts test_count worker_index g
      else if \<not> ezctest_matches_filter (suite_name t) (test_name t)
                  (cfg_filter (g_ezctest_config g))
      then worker_loop ts test_count worker_index g
      else if test_count = worker_index
      then (let g' = ezctest_run_test t g
            in (if current_test_failed g' then 1 else 0, g'))
      else worker_loop ts (test_count + 1) worker_index g)"




section \<open>Process isolation\<close>

definition zero_result :: ezctest_result_t where
  "zero_result = \<lparr>total_tests = 0, passed_tests = 0, failed_tests = 0,
                   total_assertions = 0, failed_assertions = 0\<rparr>"

text \<open>
  \<open>ezctest_exec_child\<close>: -1 when \<open>fork\<close> fails. Otherwise the child, a copy of the
  process, marks itself as worker, resets its statistics, runs the test and exits with 1
  or 0; the parent keeps its own state and sees the exit status and what the child
  printed. A child killed by signal \<open>sig\<close> gives \<open>128 + sig\<close>, any other status 2.
\<close>

definition ezctest_exec_child :: "env \<Rightarrow> nat \<Rightarrow> ezctest_info_t \<Rightarrow> nat \<Rightarrow> globals \<Rightarrow> int \<times> globals" where
  "ezctest_exec_child e iteration test test_index g =
     (case fork_outcome e iteration test_index of
        ForkFailed \<Rightarrow> (- 1, emit ForkFailedLine g)
      | ChildExited \<Rightarrow>
          (let child = ezctest_run_test test
                         (g\<lparr>g_ezctest_worker_index := int test_index,
                            g_ezctest_result := zero_result\<rparr>)
           in (if current_test_failed child then 1 else 0, g\<lparr>trace := trace child\<rparr>))
      | ChildSignaled sig \<Rightarrow> (128 + int sig, g)
      | ChildOther \<Rightarrow> (2, g))"

definition use_process_isolation :: "env \<Rightarrow> globals \<Rightarrow> int \<Rightarrow> bool" where
  "use_process_isolation e g enabled_count =
     (if cfg_no_exec (g_ezctest_config g) = - 1
      then (if enabled_count \<le> 1 \<or> debugger_attached e then False else True)
      else (cfg_no_exec (g_ezctest_config g) = 0))"

definition mark_failed :: "nat \<Rightarrow> globals \<Rightarrow> globals" where
  "mark_failed i g =
     g\<lparr>g_ezctest_registry := (g_ezctest_registry g)[i := (g_ezctest_registry g ! i)\<lparr>failed := True\<rparr>]\<rparr>"

definition add_total :: "globals \<Rightarrow> globals" where
  "add_total g = g\<lparr>g_ezctest_result :=
     (g_ezctest_result g)\<lparr>total_tests := total_tests (g_ezctest_result g) + 1\<rparr>\<rparr>"

definition add_passed :: "globals \<Rightarrow> globals" where
  "add_passed g = g\<lparr>g_ezctest_result :=
     (g_ezctest_result g)\<lparr>passed_tests := passed_tests (g_ezctest_result g) + 1\<rparr>\<rparr>"

definition add_failed :: "globals \<Rightarrow> globals" where
  "add_failed g = g\<lparr>g_ezctest_result :=
     (g_ezctest_result g)\<lparr>failed_tests := failed_tests (g_ezctest_result g) + 1\<rparr>\<rparr>"

text \<open>
  The two ways one selected test is executed inside the test loop of
  \<open>ezctest_run_all_tests_internal\<close>: in the same process, or in a child process whose
  exit code the parent sorts into passed (0), failed (1), not created (negative: the
  test is run in-process instead) and abnormal termination (anything else).
\<close>

definition run_in_process :: "nat \<Rightarrow> globals \<Rightarrow> globals" where
  "run_in_process i g =
     (let g' = ezctest_run_test (g_ezctest_registry g ! i) g
      in if current_test_failed g' then mark_failed i g' else g')"

definition run_isolated :: "env \<Rightarrow> nat \<Rightarrow> nat \<Rightarrow> nat \<Rightarrow> globals \<Rightarrow> globals" where
  "run_isolated e iteration i test_count g =
     (let test = g_ezctest_registry g ! i;
          g1 = emit (RunLine (suite_name test) (test_name test)) g;
          (child_exit_code, g2) = ezctest_exec_child e iteration test test_count g1
      in if child_exit_code = 0 then add_passed g2
         else if child_exit_code = 1 then mark_failed i (add_failed g2)
         else if child_exit_code < 0
         then (let g3 = ezctest_run_test test (emit FallbackLine g2)
               in if current_test_failed g3 then mark_failed i g3 else g3)
         else mark_failed i (add_failed
                (emit (AbnormalFailedLine (suite_name test) (test_name test))
                   (emit (AbnormalExitLines child_exit_code) g2))))"

fun tests_loop :: "env \<Rightarrow> bool \<Rightarrow> nat \<Rightarrow> nat list \<Rightarrow> nat \<Rightarrow> globals \<Rightarrow> globals" where
  "tests_loop e isolate iteration [] test_count g = g"
| "tests_loop e isolate iteration (i # rest) test_count g =
     (if \<not> selected g (g_ezctest_registry g ! i) then tests_loop e isolate iteration rest test_count g
      else if isolate
      then tests_loop e isolate iteration rest (test_count + 1)
             (run_isolated e iteration i test_count (add_total g))
      else tests_loop e isolate iteration rest test_count (run_in_process i (add_total g)))"

text \<open>
  The Fisher-Yates shuffle: \<open>i\<close> runs from \<open>count - 1\<close> down to 1, \<open>j = rand() % (i + 1)\<close>
  and the entries \<open>i\<close> and \<open>j\<close> are swapped. \<open>n\<close> counts the calls of \<open>rand\<close>.
\<close>

fun shuffle_loop :: "(nat \<Rightarrow> nat) \<Rightarrow> nat \<Rightarrow> nat \<Rightarrow> ezctest_info_t list \<Rightarrow> ezctest_info_t list" where
  "shuffle_loop rnd n 0 xs = xs"
| "shuffle_loop rnd n (Suc i') xs =
     (let i = Suc i'; j = rnd n mod (i + 1)
      in shuffle_loop rnd (Suc n) i' (xs[i := xs ! j, j := xs ! i]))"

definition run_iteration :: "env \<Rightarrow> bool \<Rightarrow> globals \<Rightarrow> nat \<Rightarrow> globals" where
  "run_iteration e isolate g iteration =
     (let cfg = g_ezctest_config g;
          g1 = g\<lparr>g_ezctest_registry := map (\<lambda>t. t\<lparr>failed := False\<rparr>) (g_ezctest_registry g)\<rparr>;
          g2 = (if cfg_repeat cfg > 1
                then emit (IterationLine (int iteration + 1) (cfg_repeat cfg)) g1 else g1);
          g3 = (if cfg_shuffle cfg \<and> iteration = 0
                then g2\<lparr>g_ezctest_registry :=
                        shuffle_loop (rand_value e) 0 (length (g_ezctest_registry g2) - 1)
                          (g_ezctest_registry g2)\<rparr>
                else g2)
      in tests_loop e isolate iteration [0..<length (g_ezctest_registry g3)] 0 g3)"

definition print_summary :: "bool \<Rightarrow> globals \<Rightarrow> int \<times> globals" where
  "print_summary isolate g =
     (let r = g_ezctest_result g;
          g1 = emit (PassedLine (sint (passed_tests r))) (emit (RanLine (sint (total_tests r))) g);
          g2 = (if 0 < sint (failed_tests r)
                then g1\<lparr>trace := trace g1 @ FailedCountLine (sint (failed_tests r)) #
                        map (\<lambda>t. FailedListLine (suite_name t) (test_name t))
                          (filter failed (g_ezctest_registry g1))\<rparr>
                else g1);
          g3 = (if isolate then g2
                else emit (AssertionsLine (sint (total_assertions r))
                             (sint (total_assertions r - failed_assertions r))
                             (sint (failed_assertions r))) g2);
          g4 = (if total_tests r = passed_tests r
                then emit (AllPassedLine (sint (total_tests r))) g3 else g3)
      in (if failed_tests r = 0 then 0 else 1, g4))"

definition ezctest_run_all_tests_internal :: "env \<Rightarrow> globals \<Rightarrow> int \<times> globals" where
  "ezctest_run_all_tests_internal e g =
     (let enabled_count = int (length (filter (selected g) (g_ezctest_registry g)))
      in if enabled_count = 0 then (0, emit NoTestsLine g)
         else
           (let isolate = use_process_isolation e g enabled_count;
                g1 = emit (StartLine enabled_count (cfg_repeat (g_ezctest_config g)) isolate) g;
                g2 = foldl (run_iteration e isolate) g1 [0..<nat (cfg_repeat (g_ezctest_config g))]
            in print_summary isolate g2))"



section \<open>Initial state\<close>

text \<open>The initial values of the global variables, as their definitions in the header give them.\<close>

definition initial_config :: ezctest_config_t where
  "initial_config = \<lparr>cfg_filter = None, cfg_repeat = 1, cfg_shuffle = False,
                       cfg_color = - 1, cfg_list_tests = False, cfg_no_exec = - 1\<rparr>"

definition initial_globals :: globals where
  "initial_globals =
     \<lparr>g_ezctest_registry = [],
      g_ezctest_current_failed = False,
      g_ezctest_current_assertion_failed = False,
      g_ezctest_result = zero_result,
      g_ezctest_config = initial_config,
      g_ezctest_fixtures = [],
      g_ezctest_defer_stack = [],
      has_jumped = False,
      g_ezctest_worker_index = - 1,
      trace = []\<rparr>"

section \<open>Auxiliary notions for the proofs\<close>

text \<open>
  The state of \<open>wildcard_loop\<close> with a backtrack point: the part of the pattern consumed
  since the star has no star in it and is as long as the part of the string consumed
  since \<open>star_s\<close>; the alternative still open is to let the star take one more character.
\<close>

definition star_alt :: "(string \<times> string) option \<Rightarrow> bool" where
  "star_alt star = (case star of None \<Rightarrow> False
       | Some (sp, ss) \<Rightarrow> ss \<noteq> [] \<and> glob_spec (CHR ''*'' # sp) (tl ss))"

definition star_inv :: "string \<Rightarrow> string \<Rightarrow> (string \<times> string) option \<Rightarrow> bool" where
  "star_inv p s star = (case star of None \<Rightarrow> True
       | Some (sp, ss) \<Rightarrow> (\<exists>A U. sp = A @ p \<and> ss = U @ s \<and> length A = length U \<and> CHR ''*'' \<notin> set A))"

text \<open>
  The filter grammar, written from its description. The tokens of an expression are the
  non-empty pieces between its colons. They are scanned from left to right: the first
  negative token whose body matches rejects the name, the first positive token that
  matches accepts it, and a name that no token matches is rejected.
\<close>

fun split_colon :: "string \<Rightarrow> string \<Rightarrow> string list" where
  "split_colon acc [] = (if acc = [] then [] else [acc])"
| "split_colon acc (c # cs) =
     (if c = CHR '':'' then (if acc = [] then split_colon [] cs else acc # split_colon [] cs)
      else split_colon (acc @ [c]) cs)"

fun filter_spec :: "string list \<Rightarrow> string \<Rightarrow> bool" where
  "filter_spec [] name = False"
| "filter_spec (t # ts) name =
     (if hd t = CHR ''-'' then (if glob_spec (tl t) name then False else filter_spec ts name)
      else (if glob_spec t name then True else filter_spec ts name))"

text \<open>The bindings of the fixture table that carry a given suite name, and all its names.\<close>

definition bindings_for :: "string \<Rightarrow> globals \<Rightarrow> ezctest_fixture_t list" where
  "bindings_for sn g = filter (\<lambda>x. fx_suite_name x = sn) (g_ezctest_fixtures g)"

definition fixture_names :: "globals \<Rightarrow> string list" where
  "fixture_names g = map fx_suite_name (g_ezctest_fixtures g)"

text \<open>
  Reading a function body without running it: whether it contains a fatal assertion that
  fails, and the \<open>DEFER\<close> requests it makes before the first such assertion.
\<close>

fun aborts :: "stmt list \<Rightarrow> bool" where
  "aborts [] = False"
| "aborts (ASSERT_TRUE c # rest) = (\<not> c \<or> aborts rest)"
| "aborts (x # rest) = aborts rest"

fun deferred :: "stmt list \<Rightarrow> (nat option \<times> nat) list" where
  "deferred [] = []"
| "deferred (DEFER func data # rest) = (func, data) # deferred rest"
| "deferred (ASSERT_TRUE c # rest) = (if c then deferred rest else [])"
| "deferred (x # rest) = deferred rest"

text \<open>
  The number of failed assertions that running a function body records: every failing
  non-fatal assertion on the way, and the first failing fatal one, which ends the body.
\<close>

fun failures :: "stmt list \<Rightarrow> nat" where
  "failures [] = 0"
| "failures (EXPECT_TRUE c # rest) = (if c then 0 else 1) + failures rest"
| "failures (ASSERT_TRUE c # rest) = (if c then failures rest else 1)"
| "failures (x # rest) = failures rest"

text \<open>
  The statements of an optional function (none for a NULL pointer), of the setup and of
  the teardown of a fixture.
\<close>

definition body_of :: "ezctest_func_t option \<Rightarrow> stmt list" where
  "body_of f = (case f of None \<Rightarrow> [] | Some b \<Rightarrow> b)"

definition setup_stmts :: "ezctest_fixture_t option \<Rightarrow> stmt list" where
  "setup_stmts fixture =
     (case fixture of None \<Rightarrow> []
      | Some fx \<Rightarrow> (case fx_setup fx of None \<Rightarrow> [] | Some body \<Rightarrow> body))"

definition teardown_stmts :: "ezctest_fixture_t option \<Rightarrow> stmt list" where
  "teardown_stmts fixture =
     (case fixture of None \<Rightarrow> []
      | Some fx \<Rightarrow> (case fx_teardown fx of None \<Rightarrow> [] | Some body \<Rightarrow> body))"

text \<open>
  The callbacks that are on the cleanup stack when the test body is left: the requests
  of setup and, when setup returned, of the test function, as far as the stack has room.
  \<open>calls_of\<close> lists the calls that a walk over such a list makes.
\<close>

definition pushed_callbacks :: "ezctest_info_t \<Rightarrow> ezctest_fixture_t option \<Rightarrow> (nat option \<times> nat) list" where
  "pushed_callbacks test fixture =
     take EZCTEST_MAX_DEFER_CALLBACKS
       (deferred (setup_stmts fixture) @
        (if aborts (setup_stmts fixture) then [] else deferred (test_func test)))"

fun calls_of :: "(nat option \<times> nat) list \<Rightarrow> event list" where
  "calls_of [] = []"
| "calls_of ((Some f, data) # rest) = CleanupCalled f data # calls_of rest"
| "calls_of ((None, data) # rest) = calls_of rest"

text \<open>The call of the teardown function, when the suite has one.\<close>

definition teardown_event :: "ezctest_fixture_t option \<Rightarrow> event list" where
  "teardown_event fixture =
     (case fixture of None \<Rightarrow> []
      | Some fx \<Rightarrow> (case fx_teardown fx of None \<Rightarrow> []
                    | Some body \<Rightarrow> [TeardownCalled (fx_suite_name fx)]))"

text \<open>
  Kinds of events: calls of cleanup callbacks and of teardown, the assertion lines of
  the report, what the statements of a function can add to the trace, and what running
  one test can add to it, cleanup calls apart.
\<close>

definition is_cleanup :: "event \<Rightarrow> bool" where
  "is_cleanup ev = (case ev of CleanupCalled f d \<Rightarrow> True | _ \<Rightarrow> False)"

definition is_teardown_call :: "event \<Rightarrow> bool" where
  "is_teardown_call ev = (case ev of TeardownCalled a \<Rightarrow> True | _ \<Rightarrow> False)"

definition is_assertion_line :: "event \<Rightarrow> bool" where
  "is_assertion_line ev =
     (case ev of AssertionsLine a b c \<Rightarrow> True | AssertionsNALine \<Rightarrow> True | _ \<Rightarrow> False)"

definition stmt_event :: "event \<Rightarrow> bool" where
  "stmt_event ev =
     (case ev of StmtExecuted l \<Rightarrow> True | FailureLine \<Rightarrow> True | DeferStackFullLine \<Rightarrow> True
      | _ \<Rightarrow> False)"

definition engine_event :: "event \<Rightarrow> bool" where
  "engine_event ev =
     (case ev of
        StmtExecuted l \<Rightarrow> True | FailureLine \<Rightarrow> True | DeferStackFullLine \<Rightarrow> True
      | RunLine a b \<Rightarrow> True | OkLine a b \<Rightarrow> True | FailedLine a b \<Rightarrow> True
      | TerminatedByAssertLine \<Rightarrow> True | SetupCalled a \<Rightarrow> True | TeardownCalled a \<Rightarrow> True
      | _ \<Rightarrow> False)"

text \<open>
  The guard seen as setup followed by the test function, and the states that
  \<open>ezctest_run_test\<close> passes through.
\<close>

definition setup_run :: "ezctest_fixture_t option \<Rightarrow> globals \<Rightarrow> exit_kind \<times> globals" where
  "setup_run fixture g =
     (case fixture of None \<Rightarrow> (Returned, g\<lparr>has_jumped := True\<rparr>)
      | Some fx \<Rightarrow> call_fixture (fx_setup fx) (SetupCalled (fx_suite_name fx)) (g\<lparr>has_jumped := True\<rparr>))"

definition before_guard :: "ezctest_info_t \<Rightarrow> globals \<Rightarrow> globals" where
  "before_guard test g =
     (let g1 = ezctest_defer_clear
                 (g\<lparr>g_ezctest_current_failed := False,
                    g_ezctest_current_assertion_failed := False\<rparr>)
      in if \<not> g_ezctest_worker_index g \<ge> 0
         then emit (RunLine (suite_name test) (test_name test)) g1 else g1)"

definition after_guard :: "ezctest_info_t \<Rightarrow> globals \<Rightarrow> globals" where
  "after_guard test g =
     snd (ezctest_run_test_with_exception_guard test
            (ezctest_find_fixture (suite_name test) g) (before_guard test g))"

definition after_cleanup :: "ezctest_info_t \<Rightarrow> globals \<Rightarrow> globals" where
  "after_cleanup test g =
     ezctest_defer_clear (ezctest_defer_execute ((after_guard test g)\<lparr>has_jumped := False\<rparr>))"

definition after_teardown :: "ezctest_info_t \<Rightarrow> globals \<Rightarrow> globals" where
  "after_teardown test g =
     (case ezctest_find_fixture (suite_name test) g of
        None \<Rightarrow> after_cleanup test g
      | Some fx \<Rightarrow> snd (call_fixture (fx_teardown fx) (TeardownCalled (fx_suite_name fx))
                         (after_cleanup test g)))"

definition before_verdict :: "ezctest_info_t \<Rightarrow> globals \<Rightarrow> globals" where
  "before_verdict test g =
     (if aborts (setup_stmts (ezctest_find_fixture (suite_name test) g)) \<or> aborts (test_func test)
      then emit TerminatedByAssertLine (after_teardown test g) else after_teardown test g)"

text \<open>
  The lines that the test loop prints and the calls it makes, the line that opens a run,
  and the state of \<open>ezctest_run_all_tests_internal\<close> when its loop over the iterations
  is left, just before the summary is printed, for either value of the isolation flag.
\<close>

definition loop_event :: "event \<Rightarrow> bool" where
  "loop_event ev =
     (case ev of
        StmtExecuted l \<Rightarrow> True | FailureLine \<Rightarrow> True | DeferStackFullLine \<Rightarrow> True
      | RunLine a b \<Rightarrow> True | OkLine a b \<Rightarrow> True | FailedLine a b \<Rightarrow> True
      | TerminatedByAssertLine \<Rightarrow> True | SetupCalled a \<Rightarrow> True | TeardownCalled a \<Rightarrow> True
      | CleanupCalled f d \<Rightarrow> True | ForkFailedLine \<Rightarrow> True | FallbackLine \<Rightarrow> True
      | AbnormalExitLines c \<Rightarrow> True | AbnormalFailedLine a b \<Rightarrow> True
      | IterationLine a b \<Rightarrow> True
      | _ \<Rightarrow> False)"

definition is_start_line :: "event \<Rightarrow> bool" where
  "is_start_line ev = (case ev of StartLine n r b \<Rightarrow> True | _ \<Rightarrow> False)"

definition before_report :: "env \<Rightarrow> bool \<Rightarrow> globals \<Rightarrow> globals" where
  "before_report e isolate g =
     foldl (run_iteration e isolate)
       (emit (StartLine (int (length (filter (selected g) (g_ezctest_registry g))))
                (cfg_repeat (g_ezctest_config g)) isolate) g)
       [0..<nat (cfg_repeat (g_ezctest_config g))]"

section \<open>Sample inputs\<close>

text \<open>
  A fixture table filled to its capacity with the suites \<open>x\<close>, \<open>xx\<close>, \<open>xxx\<close> and so
  on; an environment without a debugger in which every \<open>fork\<close> succeeds and the child
  exits by itself, and one in which every \<open>fork\<close> fails.
\<close>

definition full_fixture_table :: "ezctest_fixture_t list" where
  "full_fixture_table =
     map (\<lambda>i. \<lparr>fx_suite_name = replicate (Suc i) CHR ''x'', fx_setup = None, fx_teardown = None\<rparr>)
       [0..<64]"

definition env_children_exit :: env where
  "env_children_exit =
     \<lparr>debugger_attached = False, rand_value = (\<lambda>n. 0), fork_outcome = (\<lambda>r k. ChildExited)\<rparr>"


text \<open>
  A passing test, a test that trips a fatal assertion between two statements, tests that
  register three cleanup callbacks and go on with the given statements, and a fixture of
  suite \<open>Foo\<close> with both functions.
\<close>

definition sample_test :: ezctest_info_t where
  "sample_test = \<lparr>suite_name = ''Foo'', test_name = ''FastOne'',
     test_func = [STEP 1, EXPECT_TRUE True], enabled = True, failed = False\<rparr>"

definition failing_test :: ezctest_info_t where
  "failing_test = \<lparr>suite_name = ''Foo'', test_name = ''Broken'',
     test_func = [STEP 1, ASSERT_TRUE False, STEP 2], enabled = True, failed = False\<rparr>"

definition defer_test :: "stmt list \<Rightarrow> ezctest_info_t" where
  "defer_test rest = \<lparr>suite_name = ''Foo'', test_name = ''Defer'',
     test_func = [DEFER (Some 1) 10, DEFER (Some 2) 20, DEFER (Some 3) 30] @ rest,
     enabled = True, failed = False\<rparr>"

definition foo_fixture :: ezctest_fixture_t where
  "foo_fixture = \<lparr>fx_suite_name = ''Foo'', fx_setup = Some [STEP 7],
                    fx_teardown = Some [STEP 8]\<rparr>"

text \<open>
  States: the fixture of \<open>Foo\<close> registered; a worker process with ordinal 1 and two
  registered tests; one registered test with isolation forced on; a passing and a
  failing test with isolation forced on; two tests of which the filter selects one, in
  automatic mode.
\<close>

definition fixture_globals :: globals where
  "fixture_globals = initial_globals\<lparr>g_ezctest_fixtures := [foo_fixture]\<rparr>"


definition isolated_globals :: globals where
  "isolated_globals = initial_globals\<lparr>g_ezctest_registry := [sample_test],
      g_ezctest_config := initial_config\<lparr>cfg_no_exec := 0\<rparr>\<rparr>"

definition isolated_pair_globals :: globals where
  "isolated_pair_globals = initial_globals\<lparr>g_ezctest_registry := [sample_test, failing_test],
      g_ezctest_config := initial_config\<lparr>cfg_no_exec := 0\<rparr>\<rparr>"

definition bar_test :: ezctest_info_t where
  "bar_test = \<lparr>suite_name = ''Bar'', test_name = ''Other'',
     test_func = [STEP 3], enabled = True, failed = False\<rparr>"

definition one_of_two_globals :: globals where
  "one_of_two_globals = initial_globals\<lparr>g_ezctest_registry := [sample_test, bar_test],
      g_ezctest_config := initial_config\<lparr>cfg_filter := Some ''Foo.*''\<rparr>\<rparr>"

text \<open>Two registered tests, no filter, isolation left to the automatic decision.\<close>

definition auto_pair_globals :: globals where
  "auto_pair_globals = initial_globals\<lparr>g_ezctest_registry := [sample_test, failing_test]\<rparr>"

text \<open>
  A suite name of 200 characters, a test name of 100 characters, and the pattern of 301
  question marks, which is as long as the full name of that test.
\<close>

definition long_suite :: string where
  "long_suite = replicate 200 CHR ''a''"

definition long_test :: string where
  "long_test = replicate 100 CHR ''b''"

definition long_pattern :: string where
  "long_pattern = replicate 301 CHR ''?''"

section \<open>The wildcard matcher and the reference semantics\<close>

lemma glob_star_unfold: "glob_spec (CHR ''*'' # p) s = (glob_spec p s \<or> (s \<noteq> [] \<and> glob_spec (CHR ''*'' # p) (tl s)))"
  by (cases s) auto

lemma glob_nil: "glob_spec p [] = (dropWhile (\<lambda>c. c = CHR ''*'') p = [])"
  by (induction p) auto

lemma glob_star_drop: "glob_spec (CHR ''*'' # p) (drop k s) \<Longrightarrow> glob_spec (CHR ''*'' # p) s"
proof (induction s arbitrary: k)
  case Nil then show ?case by simp
next
  case (Cons d s)
  show ?case
  proof (cases k)
    case 0 with Cons.prems show ?thesis by simp
  next
    case (Suc j)
    with Cons.prems have "glob_spec (CHR ''*'' # p) (drop j s)" by simp
    from Cons.IH [OF this] show ?thesis by simp
  qed
qed

lemma glob_literal_prefix:
  "CHR ''*'' \<notin> set A \<Longrightarrow> glob_spec (A @ q) t \<Longrightarrow> length A \<le> length t \<and> glob_spec q (drop (length A) t)"
proof (induction A arbitrary: t)
  case Nil then show ?case by simp
next
  case (Cons a A)
  then show ?case by (cases t) (auto)
qed

lemma glob_star_literal_prefix:
  "CHR ''*'' \<notin> set A \<Longrightarrow> glob_spec (CHR ''*'' # A @ q) t \<Longrightarrow>
     \<exists>k. length A \<le> k \<and> k \<le> length t \<and> glob_spec q (drop k t)"
proof (induction t)
  case Nil
  then have "glob_spec (A @ q) []" by simp
  from glob_literal_prefix [OF Nil.prems(1) this] show ?case by auto
next
  case (Cons d t)
  from Cons.prems(2) have "glob_spec (A @ q) (d # t) \<or> glob_spec (CHR ''*'' # A @ q) t" by simp
  then show ?case
  proof
    assume "glob_spec (A @ q) (d # t)"
    from glob_literal_prefix [OF Cons.prems(1) this] show ?thesis by auto
  next
    assume "glob_spec (CHR ''*'' # A @ q) t"
    from Cons.IH [OF Cons.prems(1) this] obtain k where "length A \<le> k" "k \<le> length t" "glob_spec q (drop k t)" by auto
    then show ?thesis by (intro exI [of _ "Suc k"]) auto
  qed
qed


lemma wildcard_loop_sound:
  "star_inv p s star \<Longrightarrow> wildcard_loop p s star = (glob_spec p s \<or> star_alt star)"
proof (induction p s star rule: wildcard_loop.induct)
  case (1 p s star)
  show ?case
  proof (cases s)
    case Nil
    have "\<not> star_alt star"
    proof (cases star)
      case None then show ?thesis by (simp add: star_alt_def)
    next
      case (Some pr)
      obtain sp ss where pr: "pr = (sp, ss)" by (cases pr)
      from "1.prems" Some pr Nil obtain A where A: "sp = A @ p" "length A = length ss" "CHR ''*'' \<notin> set A"
        by (auto simp: star_inv_def)
      show ?thesis
      proof
        assume "star_alt star"
        with Some pr have ne: "ss \<noteq> []" and g: "glob_spec (CHR ''*'' # A @ p) (tl ss)"
          by (auto simp: star_alt_def A)
        from glob_star_literal_prefix [OF A(3) g] obtain k where "length A \<le> k" "k \<le> length (tl ss)" by auto
        with A(2) ne show False by (cases ss) auto
      qed
    qed
    then show ?thesis using Nil by (subst wildcard_loop.simps) (simp add: glob_nil)
  next
    case (Cons c s')
    show ?thesis
    proof (cases "p \<noteq> [] \<and> hd p = CHR ''*''")
      case True
      then obtain p' where p: "p = CHR ''*'' # p'" by (cases p) auto
      have inv: "star_inv (tl p) s (Some (tl p, s))"
        by (auto simp: star_inv_def intro!: exI [of _ "[]"])
      have alt: "glob_spec (CHR ''*'' # p') s" if sa: "star_alt star"
      proof -
        from sa obtain sp ss where st: "star = Some (sp, ss)" and ne: "ss \<noteq> []"
            and g: "glob_spec (CHR ''*'' # sp) (tl ss)"
          by (auto simp: star_alt_def split: option.splits)
        from "1.prems" st obtain A U where A: "sp = A @ p" "ss = U @ s" "length A = length U" "CHR ''*'' \<notin> set A"
          by (auto simp: star_inv_def)
        from g have "glob_spec (CHR ''*'' # A @ (CHR ''*'' # p')) (tl ss)" by (simp add: A p)
        from glob_star_literal_prefix [OF A(4) this] obtain k
          where k: "length A \<le> k" "glob_spec (CHR ''*'' # p') (drop k (tl ss))" by auto
        have "drop k (tl ss) = drop (Suc k - length U) s"
          using A(2,3) k(1) by (simp add: drop_Suc [symmetric] del: drop_Suc)
        with k(2) show ?thesis by (auto dest: glob_star_drop)
      qed
      have "wildcard_loop p s star = wildcard_loop (tl p) s (Some (tl p, s))"
        using True Cons by (subst wildcard_loop.simps) simp
      also have "\<dots> = (glob_spec (tl p) s \<or> star_alt (Some (tl p, s)))"
        using "1.IH"(1) [OF Cons True inv] .
      also have "\<dots> = glob_spec (CHR ''*'' # p') s"
        using Cons by (simp add: star_alt_def p)
      finally show ?thesis using alt p by auto
    next
      case notstar: False
      show ?thesis
      proof (cases "p \<noteq> [] \<and> (hd p = CHR ''?'' \<or> hd p = c)")
        case True
        then obtain pc p' where p: "p = pc # p'" "pc = CHR ''?'' \<or> pc = c" by (cases p) auto
        with notstar have ns: "pc \<noteq> CHR ''*''" by simp
        have inv: "star_inv (tl p) s' star"
        proof (cases star)
          case None then show ?thesis by (simp add: star_inv_def)
        next
          case (Some pr)
          obtain sp ss where pr: "pr = (sp, ss)" by (cases pr)
          from "1.prems" Some pr obtain A U where A: "sp = A @ p" "ss = U @ s" "length A = length U" "CHR ''*'' \<notin> set A"
            by (auto simp: star_inv_def)
          show ?thesis unfolding star_inv_def Some pr
            using A ns p Cons by (auto intro!: exI [of _ "A @ [pc]"] exI [of _ "U @ [c]"])
        qed
        have "wildcard_loop p s star = wildcard_loop (tl p) s' star"
          using True notstar Cons by (subst wildcard_loop.simps) simp
        also have "\<dots> = (glob_spec (tl p) s' \<or> star_alt star)"
          using "1.IH"(2) [OF Cons notstar True inv] .
        finally show ?thesis using p ns Cons by auto
      next
        case nomatch: False
        have ng: "\<not> glob_spec p s"
          using notstar nomatch Cons by (cases p) auto
        show ?thesis
        proof (cases star)
          case None
          then have "wildcard_loop p s star = False"
            using notstar nomatch Cons by (subst wildcard_loop.simps) auto
          then show ?thesis using ng None by (simp add: star_alt_def)
        next
          case (Some pr)
          obtain sp ss where pr: "pr = (sp, ss)" by (cases pr)
          have inv: "star_inv sp (tl ss) (Some (sp, tl ss))"
            by (auto simp: star_inv_def intro!: exI [of _ "[]"])
          from "1.prems" Some pr Cons have ne: "ss \<noteq> []" by (auto simp: star_inv_def)
          have "wildcard_loop p s star = wildcard_loop sp (tl ss) (Some (sp, tl ss))"
            using notstar nomatch Cons Some pr by (subst wildcard_loop.simps) auto
          also have "\<dots> = (glob_spec sp (tl ss) \<or> star_alt (Some (sp, tl ss)))"
            using "1.IH"(3) [OF Cons notstar nomatch Some pr [symmetric] inv] .
          also have "\<dots> = glob_spec (CHR ''*'' # sp) (tl ss)"
            using glob_star_unfold [of sp "tl ss"] by (simp add: star_alt_def)
          finally show ?thesis using ng Some pr ne by (simp add: star_alt_def)
        qed
      qed
    qed
  qed
qed

lemma wildcard_match_glob: "ezctest_wildcard_match p s = glob_spec p s"
  using wildcard_loop_sound [of p s None]
  by (simp add: ezctest_wildcard_match_def star_inv_def star_alt_def)

lemma strtok_colon_single:
  assumes "pat \<noteq> []" and "CHR '':'' \<notin> set pat"
  shows "strtok_colon pat = Some (pat, [])"
proof -
  have d: "dropWhile (\<lambda>c. c = CHR '':'') pat = pat"
    using assms by (cases pat) auto
  have t: "takeWhile (\<lambda>c. c \<noteq> CHR '':'') pat = pat"
    using assms(2) by (auto simp: takeWhile_eq_all_conv)
  have e: "dropWhile (\<lambda>c. c \<noteq> CHR '':'') pat = []"
    using assms(2) by (auto simp: dropWhile_eq_Nil_conv)
  show ?thesis
    using assms(1) by (simp add: strtok_colon_def Let_def d t e)
qed

lemma filter_loop_single:
  assumes "pat \<noteq> []" and "CHR '':'' \<notin> set pat" and "hd pat \<noteq> CHR ''-''"
  shows "filter_loop pat name = ezctest_wildcard_match pat name"
proof -
  have "strtok_colon [] = None" by (simp add: strtok_colon_def)
  then have "filter_loop [] name = False" by (subst filter_loop.simps) simp
  then show ?thesis
    using assms(3) strtok_colon_single [OF assms(1,2)]
    by (subst filter_loop.simps) simp
qed

text \<open>The token loop of the filter against the filter grammar.\<close>

lemma split_colon_acc:
  "split_colon acc s =
     (if acc @ takeWhile (\<lambda>c. c \<noteq> CHR '':'') s = [] then []
      else [acc @ takeWhile (\<lambda>c. c \<noteq> CHR '':'') s]) @
     split_colon [] (drop 1 (dropWhile (\<lambda>c. c \<noteq> CHR '':'') s))"
  by (induction s arbitrary: acc) simp_all

lemma split_colon_skip:
  "split_colon [] (dropWhile (\<lambda>c. c = CHR '':'') s) = split_colon [] s"
  by (induction s) simp_all

lemma strtok_colon_None:
  assumes "strtok_colon rest = None"
  shows "split_colon [] rest = []"
proof -
  from assms have e: "dropWhile (\<lambda>c. c = CHR '':'') rest = []"
    by (simp add: strtok_colon_def Let_def split: if_splits)
  have "split_colon [] [] = []" by simp
  then have "split_colon [] (dropWhile (\<lambda>c. c = CHR '':'') rest) = []"
    by (simp only: e)
  then show ?thesis
    by (simp only: split_colon_skip)
qed

lemma strtok_colon_Some:
  assumes "strtok_colon rest = Some (token, rest')"
  shows "split_colon [] rest = token # split_colon [] rest'"
proof -
  let ?start = "dropWhile (\<lambda>c. c = CHR '':'') rest"
  from assms have ne: "?start \<noteq> []"
    and t: "token = takeWhile (\<lambda>c. c \<noteq> CHR '':'') ?start"
    and r: "rest' = drop 1 (dropWhile (\<lambda>c. c \<noteq> CHR '':'') ?start)"
    by (auto simp: strtok_colon_def Let_def split: if_splits)
  have "hd ?start \<noteq> CHR '':''"
    using hd_dropWhile [OF ne] by simp
  with ne have "takeWhile (\<lambda>c. c \<noteq> CHR '':'') ?start \<noteq> []"
    by (cases ?start) simp_all
  then have "split_colon [] ?start = token # split_colon [] rest'"
    using split_colon_acc [of "[]" ?start] by (simp add: t r)
  then show ?thesis
    by (simp add: split_colon_skip)
qed

lemma filter_loop_spec:
  "filter_loop rest name = filter_spec (split_colon [] rest) name"
proof (induction rest name rule: filter_loop.induct)
  case (1 rest full_name)
  show ?case
  proof (cases "strtok_colon rest")
    case None
    then show ?thesis
      by (subst filter_loop.simps) (simp add: strtok_colon_None)
  next
    case (Some a)
    obtain token rest' where a: "a = (token, rest')" by (cases a)
    have s: "strtok_colon rest = Some (token, rest')" using Some a by simp
    show ?thesis
      using 1 [OF s] s
      by (subst filter_loop.simps) (simp add: strtok_colon_Some [OF s] wildcard_match_glob)
  qed
qed

lemma matches_filter_spec:
  "ezctest_matches_filter suite test flt =
     (case flt of None \<Rightarrow> True
      | Some f \<Rightarrow> f = [] \<or>
          filter_spec (split_colon [] (take (EZCTEST_MAX_NAME_LENGTH * 4 - 1) f))
            (take (EZCTEST_MAX_NAME_LENGTH * 2 - 1) (suite @ ''.'' @ test)))"
  by (auto simp add: ezctest_matches_filter_def Let_def filter_loop_spec split: option.splits)

section \<open>The name filter\<close>

text \<open>
  C1. For the filter \<open>Foo.*:-Foo.Slow*\<close> the claim wants \<open>Foo.SlowOne\<close> excluded,
  \<open>Foo.FastOne\<close> included and \<open>Bar.Anything\<close> excluded. The code scans the tokens from
  left to right and returns at the first token that matches, so the positive token
  \<open>Foo.*\<close> accepts \<open>Foo.SlowOne\<close> before the negative token is looked at: the first name
  is included, the other two come out as the claim says. The same happens with the
  filter \<open>*:-*Slow*\<close> that the usage text and the readme give for leaving out slow
  tests; only a negative token that stands first excludes the name.
\<close>

theorem filter_example_evaluated:
  "ezctest_matches_filter ''Foo'' ''SlowOne'' (Some ''Foo.*:-Foo.Slow*'') = True \<and>
   ezctest_matches_filter ''Foo'' ''FastOne'' (Some ''Foo.*:-Foo.Slow*'') = True \<and>
   ezctest_matches_filter ''Bar'' ''Anything'' (Some ''Foo.*:-Foo.Slow*'') = False \<and>
   ezctest_matches_filter ''Foo'' ''SlowOne'' (Some ''*:-*Slow*'') = True \<and>
   ezctest_matches_filter ''Foo'' ''SlowOne'' (Some ''-Foo.Slow*:Foo.*'') = False"
  by code_simp

text \<open>
  C2. The wildcard matcher computes the reference semantics for every pattern and every
  string, and an absent or empty filter matches every test. A non-empty filter is read
  up to the size of \<open>filter_copy\<close> (its first 511 characters), cut at the colons into
  tokens, and the tokens are matched in turn against the content of \<open>full_name\<close>, which
  is the first 255 characters of \<open>suite.test\<close>. When the filter is shorter than 512
  characters and \<open>suite.test\<close> shorter than 256, the name matched is \<open>suite.test\<close>
  itself; for a filter that is one positive pattern the result is then the reference
  semantics of that pattern on \<open>suite.test\<close>.
\<close>

theorem wildcard_matcher_is_glob:
  "ezctest_wildcard_match p s = glob_spec p s \<and>
   ezctest_matches_filter suite test None \<and>
   ezctest_matches_filter suite test (Some []) \<and>
   (pat \<noteq> [] \<and> CHR '':'' \<notin> set pat \<and> hd pat \<noteq> CHR ''-'' \<and>
    length pat < EZCTEST_MAX_NAME_LENGTH * 4 \<and>
    length suite + length test + 1 < EZCTEST_MAX_NAME_LENGTH * 2 \<longrightarrow>
      ezctest_matches_filter suite test (Some pat) = glob_spec pat (suite @ ''.'' @ test)) \<and>
   (f \<noteq> [] \<longrightarrow>
      ezctest_matches_filter suite test (Some f) =
        filter_spec (split_colon [] (take (EZCTEST_MAX_NAME_LENGTH * 4 - 1) f))
          (take (EZCTEST_MAX_NAME_LENGTH * 2 - 1) (suite @ ''.'' @ test))) \<and>
   (f \<noteq> [] \<and> length f < EZCTEST_MAX_NAME_LENGTH * 4 \<and>
    length suite + length test + 1 < EZCTEST_MAX_NAME_LENGTH * 2 \<longrightarrow>
      ezctest_matches_filter suite test (Some f) =
        filter_spec (split_colon [] f) (suite @ ''.'' @ test))"
proof -
  have full: "ezctest_matches_filter suite test (Some pat) = glob_spec pat (suite @ ''.'' @ test)"
    if "pat \<noteq> []" "CHR '':'' \<notin> set pat" "hd pat \<noteq> CHR ''-''"
       "length pat < EZCTEST_MAX_NAME_LENGTH * 4"
       "length suite + length test + 1 < EZCTEST_MAX_NAME_LENGTH * 2"
  proof -
    have "take (EZCTEST_MAX_NAME_LENGTH * 4 - 1) pat = pat"
      using that(4) by simp
    moreover have "take (EZCTEST_MAX_NAME_LENGTH * 2 - 1) (suite @ ''.'' @ test) = suite @ ''.'' @ test"
      using that(5) by simp
    ultimately show ?thesis
      using that(1) filter_loop_single [OF that(1,2,3)]
      by (simp add: ezctest_matches_filter_def Let_def wildcard_match_glob)
  qed
  have absent: "ezctest_matches_filter suite test None"
    and empty: "ezctest_matches_filter suite test (Some [])"
    by (simp_all add: ezctest_matches_filter_def)
  have trunc: "ezctest_matches_filter suite test (Some f) =
        filter_spec (split_colon [] (take (EZCTEST_MAX_NAME_LENGTH * 4 - 1) f))
          (take (EZCTEST_MAX_NAME_LENGTH * 2 - 1) (suite @ ''.'' @ test))"
    if "f \<noteq> []"
    using that by (simp add: matches_filter_spec)
  have inb: "ezctest_matches_filter suite test (Some f) =
        filter_spec (split_colon [] f) (suite @ ''.'' @ test)"
    if "f \<noteq> []" "length f < EZCTEST_MAX_NAME_LENGTH * 4"
       "length suite + length test + 1 < EZCTEST_MAX_NAME_LENGTH * 2"
  proof -
    have "take (EZCTEST_MAX_NAME_LENGTH * 4 - 1) f = f"
      using that(2) by simp
    moreover have "take (EZCTEST_MAX_NAME_LENGTH * 2 - 1) (suite @ ''.'' @ test) = suite @ ''.'' @ test"
      using that(3) by simp
    ultimately show ?thesis
      using trunc [OF that(1)] by simp
  qed
  from full absent empty trunc inb wildcard_match_glob [of p s] show ?thesis
    by blast
qed

theorem wildcard_matcher_is_glob_witness:
  "ezctest_wildcard_match ''*Fast*'' ''Foo.FastOne'' = glob_spec ''*Fast*'' ''Foo.FastOne'' \<and>
   ezctest_matches_filter ''Foo'' ''FastOne'' None \<and>
   ezctest_matches_filter ''Foo'' ''FastOne'' (Some []) \<and>
   ezctest_matches_filter ''Foo'' ''FastOne'' (Some ''F?o.*One'')
     = glob_spec ''F?o.*One'' (''Foo'' @ ''.'' @ ''FastOne'') \<and>
   glob_spec ''F?o.*One'' ''Foo.FastOne'' \<and>
   ''-*Slow*::Foo.*'' \<noteq> [] \<and> length ''-*Slow*::Foo.*'' < EZCTEST_MAX_NAME_LENGTH * 4 \<and>
   length ''Foo'' + length ''FastOne'' + 1 < EZCTEST_MAX_NAME_LENGTH * 2 \<and>
   split_colon [] ''-*Slow*::Foo.*'' = [''-*Slow*'', ''Foo.*''] \<and>
   ezctest_matches_filter ''Foo'' ''FastOne'' (Some ''-*Slow*::Foo.*'')
     = filter_spec [''-*Slow*'', ''Foo.*''] ''Foo.FastOne'' \<and>
   filter_spec [''-*Slow*'', ''Foo.*''] ''Foo.FastOne''"
proof -
  note th = wildcard_matcher_is_glob [of "''*Fast*''" "''Foo.FastOne''" "''Foo''" "''FastOne''"
              "''F?o.*One''" "''-*Slow*::Foo.*''"]
  have g: "glob_spec ''F?o.*One'' ''Foo.FastOne''" by simp
  have h1: "''F?o.*One'' \<noteq> [] \<and> CHR '':'' \<notin> set ''F?o.*One'' \<and> hd ''F?o.*One'' \<noteq> CHR ''-'' \<and>
    length ''F?o.*One'' < EZCTEST_MAX_NAME_LENGTH * 4 \<and>
    length ''Foo'' + length ''FastOne'' + 1 < EZCTEST_MAX_NAME_LENGTH * 2"
    by (simp add: EZCTEST_MAX_NAME_LENGTH_def)
  have h2: "''-*Slow*::Foo.*'' \<noteq> []" "length ''-*Slow*::Foo.*'' < EZCTEST_MAX_NAME_LENGTH * 4"
    "length ''Foo'' + length ''FastOne'' + 1 < EZCTEST_MAX_NAME_LENGTH * 2"
    by (simp_all add: EZCTEST_MAX_NAME_LENGTH_def)
  have sp: "split_colon [] ''-*Slow*::Foo.*'' = [''-*Slow*'', ''Foo.*'']" by simp
  have fs: "filter_spec [''-*Slow*'', ''Foo.*''] ''Foo.FastOne''" by simp
  have a: "ezctest_wildcard_match ''*Fast*'' ''Foo.FastOne'' = glob_spec ''*Fast*'' ''Foo.FastOne''"
    using th by blast
  have b: "ezctest_matches_filter ''Foo'' ''FastOne'' None"
    "ezctest_matches_filter ''Foo'' ''FastOne'' (Some [])"
    using th by blast+
  have c: "ezctest_matches_filter ''Foo'' ''FastOne'' (Some ''F?o.*One'')
     = glob_spec ''F?o.*One'' (''Foo'' @ ''.'' @ ''FastOne'')"
    using th h1 by blast
  have "ezctest_matches_filter ''Foo'' ''FastOne'' (Some ''-*Slow*::Foo.*'')
     = filter_spec (split_colon [] ''-*Slow*::Foo.*'') (''Foo'' @ ''.'' @ ''FastOne'')"
    using th h2 by blast
  then have d: "ezctest_matches_filter ''Foo'' ''FastOne'' (Some ''-*Slow*::Foo.*'')
     = filter_spec [''-*Slow*'', ''Foo.*''] ''Foo.FastOne''"
    by (simp only: sp append.simps)
  from a b c g h2 sp d fs show ?thesis by blast
qed

text \<open>
  C2 as stated has every pattern matched against \<open>suite.test\<close>. A suite name of 200
  characters and a test name of 100 give a full name of 301 characters, which the
  pattern of 301 question marks matches; the code compares the pattern with the 255
  characters that fit into \<open>full_name\<close> and rejects the test.
\<close>

theorem long_name_counterexample:
  "ezctest_matches_filter long_suite long_test (Some long_pattern) = False \<and>
   glob_spec long_pattern (long_suite @ ''.'' @ long_test) = True \<and>
   length long_pattern = length (long_suite @ ''.'' @ long_test)"
  by code_simp

section \<open>Fixture registration\<close>

lemma set_setup_None: "sn \<notin> set (map fx_suite_name fs) \<Longrightarrow> set_setup sn f fs = None"
  by (induction fs) auto

lemma set_teardown_None: "sn \<notin> set (map fx_suite_name fs) \<Longrightarrow> set_teardown sn f fs = None"
  by (induction fs) auto

lemma filter_absent: "sn \<notin> set (map fx_suite_name fs) \<Longrightarrow> filter (\<lambda>x. fx_suite_name x = sn) fs = []"
  by (induction fs) auto

lemma set_setup_Some:
  "sn \<in> set (map fx_suite_name fs) \<Longrightarrow> distinct (map fx_suite_name fs) \<Longrightarrow>
   \<exists>fs' b. set_setup sn f fs = Some fs' \<and> map fx_suite_name fs' = map fx_suite_name fs \<and>
     filter (\<lambda>x. fx_suite_name x = sn) fs = [b] \<and>
     filter (\<lambda>x. fx_suite_name x = sn) fs' = [b\<lparr>fx_setup := f\<rparr>]"
proof (induction fs)
  case Nil then show ?case by simp
next
  case (Cons x xs)
  show ?case
  proof (cases "fx_suite_name x = sn")
    case True
    with Cons.prems(2) have "sn \<notin> set (map fx_suite_name xs)" by auto
    then show ?thesis using True by (simp add: filter_absent)
  next
    case False
    with Cons.prems have "sn \<in> set (map fx_suite_name xs)" "distinct (map fx_suite_name xs)" by auto
    from Cons.IH [OF this] show ?thesis using False by auto
  qed
qed

lemma set_teardown_Some:
  "sn \<in> set (map fx_suite_name fs) \<Longrightarrow> distinct (map fx_suite_name fs) \<Longrightarrow>
   \<exists>fs' b. set_teardown sn f fs = Some fs' \<and> map fx_suite_name fs' = map fx_suite_name fs \<and>
     filter (\<lambda>x. fx_suite_name x = sn) fs = [b] \<and>
     filter (\<lambda>x. fx_suite_name x = sn) fs' = [b\<lparr>fx_teardown := f\<rparr>]"
proof (induction fs)
  case Nil then show ?case by simp
next
  case (Cons x xs)
  show ?case
  proof (cases "fx_suite_name x = sn")
    case True
    with Cons.prems(2) have "sn \<notin> set (map fx_suite_name xs)" by auto
    then show ?thesis using True by (simp add: filter_absent)
  next
    case False
    with Cons.prems have "sn \<in> set (map fx_suite_name xs)" "distinct (map fx_suite_name xs)" by auto
    from Cons.IH [OF this] show ?thesis using False by auto
  qed
qed

text \<open>One registration: afterwards the suite has exactly one binding, which carries the
  registered function and keeps the other field of the binding it had before.\<close>

lemma register_setup_step:
  assumes d: "distinct (fixture_names g)"
    and room: "sn \<in> set (fixture_names g) \<or> length (g_ezctest_fixtures g) < EZCTEST_MAX_FIXTURES"
  shows "\<exists>b. bindings_for sn (snd (ezctest_register_setup sn f g)) = [b] \<and>
           fx_suite_name b = sn \<and> fx_setup b = f \<and>
           fx_teardown b = (case bindings_for sn g of [] \<Rightarrow> None | c # cs \<Rightarrow> fx_teardown c) \<and>
           distinct (fixture_names (snd (ezctest_register_setup sn f g))) \<and>
           sn \<in> set (fixture_names (snd (ezctest_register_setup sn f g)))"
proof (cases "sn \<in> set (fixture_names g)")
  case True
  from set_setup_Some [OF True [unfolded fixture_names_def] d [unfolded fixture_names_def], of f]
  obtain fs' b where *: "set_setup sn f (g_ezctest_fixtures g) = Some fs'"
      "map fx_suite_name fs' = map fx_suite_name (g_ezctest_fixtures g)"
      "filter (\<lambda>x. fx_suite_name x = sn) (g_ezctest_fixtures g) = [b]"
      "filter (\<lambda>x. fx_suite_name x = sn) fs' = [b\<lparr>fx_setup := f\<rparr>]" by blast
  from *(3) have "b \<in> set (filter (\<lambda>x. fx_suite_name x = sn) (g_ezctest_fixtures g))" by simp
  then have "fx_suite_name b = sn" by simp
  then show ?thesis
    using * d True by (simp add: ezctest_register_setup_def bindings_for_def fixture_names_def)
next
  case False
  with room have r: "length (g_ezctest_fixtures g) < EZCTEST_MAX_FIXTURES" by simp
  from False have n: "set_setup sn f (g_ezctest_fixtures g) = None"
    by (simp add: set_setup_None fixture_names_def)
  from False have e: "filter (\<lambda>x. fx_suite_name x = sn) (g_ezctest_fixtures g) = []"
    by (simp add: filter_absent fixture_names_def)
  show ?thesis
    using n r e d False by (simp add: ezctest_register_setup_def bindings_for_def fixture_names_def)
qed

lemma register_teardown_step:
  assumes d: "distinct (fixture_names g)"
    and room: "sn \<in> set (fixture_names g) \<or> length (g_ezctest_fixtures g) < EZCTEST_MAX_FIXTURES"
  shows "\<exists>b. bindings_for sn (snd (ezctest_register_teardown sn f g)) = [b] \<and>
           fx_suite_name b = sn \<and> fx_teardown b = f \<and>
           fx_setup b = (case bindings_for sn g of [] \<Rightarrow> None | c # cs \<Rightarrow> fx_setup c) \<and>
           distinct (fixture_names (snd (ezctest_register_teardown sn f g))) \<and>
           sn \<in> set (fixture_names (snd (ezctest_register_teardown sn f g)))"
proof (cases "sn \<in> set (fixture_names g)")
  case True
  from set_teardown_Some [OF True [unfolded fixture_names_def] d [unfolded fixture_names_def], of f]
  obtain fs' b where *: "set_teardown sn f (g_ezctest_fixtures g) = Some fs'"
      "map fx_suite_name fs' = map fx_suite_name (g_ezctest_fixtures g)"
      "filter (\<lambda>x. fx_suite_name x = sn) (g_ezctest_fixtures g) = [b]"
      "filter (\<lambda>x. fx_suite_name x = sn) fs' = [b\<lparr>fx_teardown := f\<rparr>]" by blast
  from *(3) have "b \<in> set (filter (\<lambda>x. fx_suite_name x = sn) (g_ezctest_fixtures g))" by simp
  then have "fx_suite_name b = sn" by simp
  then show ?thesis
    using * d True by (simp add: ezctest_register_teardown_def bindings_for_def fixture_names_def)
next
  case False
  with room have r: "length (g_ezctest_fixtures g) < EZCTEST_MAX_FIXTURES" by simp
  from False have n: "set_teardown sn f (g_ezctest_fixtures g) = None"
    by (simp add: set_teardown_None fixture_names_def)
  from False have e: "filter (\<lambda>x. fx_suite_name x = sn) (g_ezctest_fixtures g) = []"
    by (simp add: filter_absent fixture_names_def)
  show ?thesis
    using n r e d False by (simp add: ezctest_register_teardown_def bindings_for_def fixture_names_def)
qed

lemma register_setup_refused:
  assumes "sn \<notin> set (fixture_names g)" and "EZCTEST_MAX_FIXTURES \<le> length (g_ezctest_fixtures g)"
  shows "ezctest_register_setup sn f g = (0, emit MaxFixturesLine g)"
  using assms set_setup_None [of sn "g_ezctest_fixtures g" f]
  by (simp add: ezctest_register_setup_def fixture_names_def)

lemma register_teardown_refused:
  assumes "sn \<notin> set (fixture_names g)" and "EZCTEST_MAX_FIXTURES \<le> length (g_ezctest_fixtures g)"
  shows "ezctest_register_teardown sn f g = (0, emit MaxFixturesLine g)"
  using assms set_teardown_None [of sn "g_ezctest_fixtures g" f]
  by (simp add: ezctest_register_teardown_def fixture_names_def)

lemma register_setup_distinct:
  assumes d: "distinct (fixture_names g)"
  shows "distinct (fixture_names (snd (ezctest_register_setup sn f g)))"
proof (cases "sn \<in> set (fixture_names g) \<or> length (g_ezctest_fixtures g) < EZCTEST_MAX_FIXTURES")
  case True
  from register_setup_step [OF d True, of f] show ?thesis by blast
next
  case False
  then have "ezctest_register_setup sn f g = (0, emit MaxFixturesLine g)"
    by (intro register_setup_refused) simp_all
  then show ?thesis using d by (simp add: fixture_names_def emit_def)
qed

lemma register_teardown_distinct:
  assumes d: "distinct (fixture_names g)"
  shows "distinct (fixture_names (snd (ezctest_register_teardown sn f g)))"
proof (cases "sn \<in> set (fixture_names g) \<or> length (g_ezctest_fixtures g) < EZCTEST_MAX_FIXTURES")
  case True
  from register_teardown_step [OF d True, of f] show ?thesis by blast
next
  case False
  then have "ezctest_register_teardown sn f g = (0, emit MaxFixturesLine g)"
    by (intro register_teardown_refused) simp_all
  then show ?thesis using d by (simp add: fixture_names_def emit_def)
qed

lemma setup_then_teardown:
  assumes d: "distinct (fixture_names g)"
    and room: "sn \<in> set (fixture_names g) \<or> length (g_ezctest_fixtures g) < EZCTEST_MAX_FIXTURES"
  shows "bindings_for sn (snd (ezctest_register_teardown sn t (snd (ezctest_register_setup sn s g))))
           = [\<lparr>fx_suite_name = sn, fx_setup = s, fx_teardown = t\<rparr>]"
proof -
  let ?g1 = "snd (ezctest_register_setup sn s g)"
  from register_setup_step [OF d room, of s] obtain b where
    b: "bindings_for sn ?g1 = [b]" "fx_suite_name b = sn" "fx_setup b = s"
       "distinct (fixture_names ?g1)" "sn \<in> set (fixture_names ?g1)" by blast
  from register_teardown_step [OF b(4), of sn t] b(5) obtain c where
    c: "bindings_for sn (snd (ezctest_register_teardown sn t ?g1)) = [c]" "fx_suite_name c = sn"
       "fx_teardown c = t"
       "fx_setup c = (case bindings_for sn ?g1 of [] \<Rightarrow> None | c # cs \<Rightarrow> fx_setup c)" by blast
  from c b have "c = \<lparr>fx_suite_name = sn, fx_setup = s, fx_teardown = t\<rparr>" by simp
  with c(1) show ?thesis by simp
qed

lemma teardown_then_setup:
  assumes d: "distinct (fixture_names g)"
    and room: "sn \<in> set (fixture_names g) \<or> length (g_ezctest_fixtures g) < EZCTEST_MAX_FIXTURES"
  shows "bindings_for sn (snd (ezctest_register_setup sn s (snd (ezctest_register_teardown sn t g))))
           = [\<lparr>fx_suite_name = sn, fx_setup = s, fx_teardown = t\<rparr>]"
proof -
  let ?h1 = "snd (ezctest_register_teardown sn t g)"
  from register_teardown_step [OF d room, of t] obtain b where
    b: "bindings_for sn ?h1 = [b]" "fx_suite_name b = sn" "fx_teardown b = t"
       "distinct (fixture_names ?h1)" "sn \<in> set (fixture_names ?h1)" by blast
  from register_setup_step [OF b(4), of sn s] b(5) obtain c where
    c: "bindings_for sn (snd (ezctest_register_setup sn s ?h1)) = [c]" "fx_suite_name c = sn"
       "fx_setup c = s"
       "fx_teardown c = (case bindings_for sn ?h1 of [] \<Rightarrow> None | c # cs \<Rightarrow> fx_teardown c)" by blast
  from c b have "c = \<lparr>fx_suite_name = sn, fx_setup = s, fx_teardown = t\<rparr>" by simp
  with c(1) show ?thesis by simp
qed

text \<open>
  C9, amended. In a fixture table without duplicate names: when the suite already has a
  binding or the table has room for one more, registering a setup and then a teardown,
  or a teardown and then a setup, leaves exactly one binding for the suite, with both
  functions set; when the table is full and the suite has no binding, each registration
  is refused and changes nothing but the error output; and after either registration
  the table is still without duplicate names.
\<close>

theorem fixture_binding_unique:
  assumes d: "distinct (fixture_names g)"
  shows "(sn \<in> set (fixture_names g) \<or> length (g_ezctest_fixtures g) < EZCTEST_MAX_FIXTURES \<longrightarrow>
            bindings_for sn (snd (ezctest_register_teardown sn t (snd (ezctest_register_setup sn s g))))
              = [\<lparr>fx_suite_name = sn, fx_setup = s, fx_teardown = t\<rparr>] \<and>
            bindings_for sn (snd (ezctest_register_setup sn s (snd (ezctest_register_teardown sn t g))))
              = [\<lparr>fx_suite_name = sn, fx_setup = s, fx_teardown = t\<rparr>]) \<and>
         (sn \<notin> set (fixture_names g) \<and> EZCTEST_MAX_FIXTURES \<le> length (g_ezctest_fixtures g) \<longrightarrow>
            ezctest_register_setup sn s g = (0, emit MaxFixturesLine g) \<and>
            ezctest_register_teardown sn t g = (0, emit MaxFixturesLine g)) \<and>
         distinct (fixture_names (snd (ezctest_register_setup sn s g))) \<and>
         distinct (fixture_names (snd (ezctest_register_teardown sn t g)))"
  using setup_then_teardown [OF d, of sn t s] teardown_then_setup [OF d, of sn s t]
    register_setup_refused [of sn g s] register_teardown_refused [of sn g t]
    register_setup_distinct [OF d, of sn s] register_teardown_distinct [OF d, of sn t]
  by blast

theorem fixture_binding_unique_witness:
  "distinct (fixture_names initial_globals) \<and>
   bindings_for ''Suite'' (snd (ezctest_register_teardown ''Suite'' (Some [STEP 2])
       (snd (ezctest_register_setup ''Suite'' (Some [STEP 1]) initial_globals))))
     = [\<lparr>fx_suite_name = ''Suite'', fx_setup = Some [STEP 1], fx_teardown = Some [STEP 2]\<rparr>] \<and>
   bindings_for ''Suite'' (snd (ezctest_register_setup ''Suite'' (Some [STEP 1])
       (snd (ezctest_register_teardown ''Suite'' (Some [STEP 2]) initial_globals))))
     = [\<lparr>fx_suite_name = ''Suite'', fx_setup = Some [STEP 1], fx_teardown = Some [STEP 2]\<rparr>]"
proof -
  have d: "distinct (fixture_names initial_globals)"
    by (simp add: fixture_names_def initial_globals_def)
  have r: "''Suite'' \<in> set (fixture_names initial_globals) \<or>
      length (g_ezctest_fixtures initial_globals) < EZCTEST_MAX_FIXTURES"
    by (simp add: initial_globals_def EZCTEST_MAX_FIXTURES_def)
  from fixture_binding_unique [OF d, of "''Suite''" "Some [STEP 2]" "Some [STEP 1]"] d r
  show ?thesis by blast
qed

text \<open>
  C9 as stated fails when the table already holds \<open>EZCTEST_MAX_FIXTURES\<close> other
  suites: both registrations are refused and the suite has no binding at all.
\<close>

theorem fixture_table_full_counterexample:
  "bindings_for ''New''
     (snd (ezctest_register_teardown ''New'' (Some [STEP 2])
        (snd (ezctest_register_setup ''New'' (Some [STEP 1])
           (initial_globals\<lparr>g_ezctest_fixtures := full_fixture_table\<rparr>))))) = []"
  by code_simp

section \<open>Orchestrator\<close>

text \<open>
  C10. When no enabled test matches the filter, the run only prints that there is
  nothing to run: no test is executed, the statistics and the registry stay as they
  are, and the exit code is 0.
\<close>

theorem no_matching_test_is_success:
  assumes "\<forall>t \<in> set (g_ezctest_registry g). \<not> selected g t"
  shows "ezctest_run_all_tests_internal e g = (0, emit NoTestsLine g) \<and>
         g_ezctest_result (snd (ezctest_run_all_tests_internal e g)) = g_ezctest_result g \<and>
         g_ezctest_registry (snd (ezctest_run_all_tests_internal e g)) = g_ezctest_registry g \<and>
         trace (snd (ezctest_run_all_tests_internal e g)) = trace g @ [NoTestsLine]"
proof -
  from assms have "filter (selected g) (g_ezctest_registry g) = []"
    by (simp add: filter_empty_conv)
  then have "ezctest_run_all_tests_internal e g = (0, emit NoTestsLine g)"
    by (simp add: ezctest_run_all_tests_internal_def)
  then show ?thesis by (simp add: emit_def)
qed

theorem no_matching_test_is_success_witness:
  "ezctest_run_all_tests_internal env_children_exit
     (initial_globals\<lparr>g_ezctest_registry := [sample_test],
        g_ezctest_config := initial_config\<lparr>cfg_filter := Some ''Bar.*''\<rparr>\<rparr>)
   = (0, emit NoTestsLine (initial_globals\<lparr>g_ezctest_registry := [sample_test],
        g_ezctest_config := initial_config\<lparr>cfg_filter := Some ''Bar.*''\<rparr>\<rparr>))"
proof -
  let ?g = "initial_globals\<lparr>g_ezctest_registry := [sample_test],
        g_ezctest_config := initial_config\<lparr>cfg_filter := Some ''Bar.*''\<rparr>\<rparr>"
  have "\<not> ezctest_matches_filter ''Foo'' ''FastOne'' (Some ''Bar.*'')" by code_simp
  then have "\<forall>t \<in> set (g_ezctest_registry ?g). \<not> selected ?g t"
    by (simp add: selected_def sample_test_def)
  from no_matching_test_is_success [OF this] show ?thesis by simp
qed


lemma worker_loop_misses:
  "0 \<le> wi - tc \<Longrightarrow> length (filter (selected g) ts) \<le> nat (wi - tc) \<Longrightarrow>
   worker_loop ts tc wi g =
     (1, emit (WorkerNotFoundLine wi (tc + int (length (filter (selected g) ts)))) g)"
proof (induction ts arbitrary: tc)
  case Nil then show ?case by simp
next
  case (Cons t ts)
  show ?case
  proof (cases "selected g t")
    case False
    with Cons.prems have "length (filter (selected g) ts) \<le> nat (wi - tc)" by simp
    from Cons.IH [OF Cons.prems(1) this] False show ?thesis
      by (auto simp: selected_def)
  next
    case True
    with Cons.prems have ne: "tc \<noteq> wi" by auto
    with Cons.prems(1) have pos: "0 \<le> wi - (tc + 1)" by simp
    from True Cons.prems have "length (filter (selected g) ts) \<le> nat (wi - (tc + 1))" by simp
    from Cons.IH [OF pos this] True ne show ?thesis
      by (simp add: selected_def add.assoc)
  qed
qed


section \<open>The execution engine\<close>

lemmas engine_defs = emit_def ezctest_assertion_failed_def ezctest_assertion_passed_def
  DEFER_macro_def ezctest_defer_add_def Let_def

lemma exec_stmts_frame:
  "g_ezctest_registry (snd (exec_stmts b g)) = g_ezctest_registry g \<and>
   g_ezctest_config (snd (exec_stmts b g)) = g_ezctest_config g \<and>
   g_ezctest_fixtures (snd (exec_stmts b g)) = g_ezctest_fixtures g \<and>
   g_ezctest_worker_index (snd (exec_stmts b g)) = g_ezctest_worker_index g \<and>
   has_jumped (snd (exec_stmts b g)) = has_jumped g \<and>
   total_tests (g_ezctest_result (snd (exec_stmts b g))) = total_tests (g_ezctest_result g) \<and>
   passed_tests (g_ezctest_result (snd (exec_stmts b g))) = passed_tests (g_ezctest_result g) \<and>
   failed_tests (g_ezctest_result (snd (exec_stmts b g))) = failed_tests (g_ezctest_result g)"
  by (induction b g rule: exec_stmts.induct) (simp_all add: engine_defs)

lemma exec_stmts_filter:
  assumes "\<And>ev. stmt_event ev \<Longrightarrow> \<not> P ev"
  shows "filter P (trace (snd (exec_stmts b g))) = filter P (trace g)"
proof -
  have "\<not> P (StmtExecuted l)" for l using assms by (simp add: stmt_event_def)
  moreover have "\<not> P FailureLine" "\<not> P DeferStackFullLine"
    using assms by (simp_all add: stmt_event_def)
  ultimately show ?thesis
    by (induction b g rule: exec_stmts.induct) (simp_all add: engine_defs)
qed

lemma DEFER_macro_stack:
  "length (g_ezctest_defer_stack g) \<le> EZCTEST_MAX_DEFER_CALLBACKS \<Longrightarrow>
   g_ezctest_defer_stack (DEFER_macro func data g) =
     take EZCTEST_MAX_DEFER_CALLBACKS (g_ezctest_defer_stack g @ [(func, data)])"
  by (simp add: engine_defs)

lemma exec_stmts_stack:
  "length (g_ezctest_defer_stack g) \<le> EZCTEST_MAX_DEFER_CALLBACKS \<Longrightarrow>
   g_ezctest_defer_stack (snd (exec_stmts b g)) =
     take EZCTEST_MAX_DEFER_CALLBACKS (g_ezctest_defer_stack g @ deferred b)"
proof (induction b g rule: exec_stmts.induct)
  case (5 func data rest g)
  let ?g = "DEFER_macro func data g"
  have st: "g_ezctest_defer_stack ?g =
      take EZCTEST_MAX_DEFER_CALLBACKS (g_ezctest_defer_stack g @ [(func, data)])"
    using "5.prems" by (rule DEFER_macro_stack)
  then have len: "length (g_ezctest_defer_stack ?g) \<le> EZCTEST_MAX_DEFER_CALLBACKS" by simp
  have "g_ezctest_defer_stack (snd (exec_stmts rest ?g)) =
      take EZCTEST_MAX_DEFER_CALLBACKS (g_ezctest_defer_stack ?g @ deferred rest)"
    using "5.IH" [OF len] .
  also have "\<dots> = take EZCTEST_MAX_DEFER_CALLBACKS
      (g_ezctest_defer_stack g @ (func, data) # deferred rest)"
  proof (cases "length (g_ezctest_defer_stack g) < EZCTEST_MAX_DEFER_CALLBACKS")
    case True
    then show ?thesis using st by simp
  next
    case False
    with "5.prems" have "length (g_ezctest_defer_stack g) = EZCTEST_MAX_DEFER_CALLBACKS" by simp
    then show ?thesis using st by simp
  qed
  finally show ?case by simp
qed (simp_all add: emit_def ezctest_assertion_failed_def ezctest_assertion_passed_def Let_def)

lemma exec_stmts_exit:
  "has_jumped g \<Longrightarrow> fst (exec_stmts b g) = (if aborts b then Jumped else Returned)"
  by (induction b g rule: exec_stmts.induct) (simp_all add: engine_defs)

lemma exec_stmts_truncate:
  "exec_stmts (pre @ ASSERT_TRUE False # post) g = exec_stmts (pre @ [ASSERT_TRUE False]) g"
  by (induction pre g rule: exec_stmts.induct) (simp_all add: Let_def)

lemma exec_stmts_current_failed:
  "g_ezctest_current_failed (snd (exec_stmts b g)) = (g_ezctest_current_failed g \<or> aborts b)"
  by (induction b g rule: exec_stmts.induct) (auto simp: engine_defs)

lemma exec_stmts_failures:
  "failed_assertions (g_ezctest_result (snd (exec_stmts b g))) =
     failed_assertions (g_ezctest_result g) + of_nat (failures b)"
  by (induction b g rule: exec_stmts.induct) (simp_all add: engine_defs)

lemma defer_execute_loop_frame:
  "g_ezctest_registry (defer_execute_loop st g) = g_ezctest_registry g \<and>
   g_ezctest_config (defer_execute_loop st g) = g_ezctest_config g \<and>
   g_ezctest_fixtures (defer_execute_loop st g) = g_ezctest_fixtures g \<and>
   g_ezctest_worker_index (defer_execute_loop st g) = g_ezctest_worker_index g \<and>
   has_jumped (defer_execute_loop st g) = has_jumped g \<and>
   g_ezctest_result (defer_execute_loop st g) = g_ezctest_result g \<and>
   g_ezctest_current_failed (defer_execute_loop st g) = g_ezctest_current_failed g \<and>
   g_ezctest_current_assertion_failed (defer_execute_loop st g) = g_ezctest_current_assertion_failed g \<and>
   g_ezctest_defer_stack (defer_execute_loop st g) = g_ezctest_defer_stack g"
  by (induction st g rule: defer_execute_loop.induct) (simp_all add: emit_def split: option.splits)

lemma defer_execute_loop_cleanup:
  "filter is_cleanup (trace (defer_execute_loop st g)) = filter is_cleanup (trace g) @ calls_of st"
  by (induction st g rule: defer_execute_loop.induct)
     (simp_all add: emit_def is_cleanup_def split: option.splits)

lemma defer_execute_loop_filter:
  "(\<And>f d. \<not> P (CleanupCalled f d)) \<Longrightarrow>
   filter P (trace (defer_execute_loop st g)) = filter P (trace g)"
  by (induction st g rule: defer_execute_loop.induct) (simp_all add: emit_def split: option.splits)

lemma take_take_append: "take n (take n xs @ ys) = take n (xs @ ys)"
  by (cases "n \<le> length xs") auto

lemma call_fixture_frame:
  "g_ezctest_registry (snd (call_fixture f ev g)) = g_ezctest_registry g \<and>
   g_ezctest_config (snd (call_fixture f ev g)) = g_ezctest_config g \<and>
   g_ezctest_fixtures (snd (call_fixture f ev g)) = g_ezctest_fixtures g \<and>
   g_ezctest_worker_index (snd (call_fixture f ev g)) = g_ezctest_worker_index g \<and>
   has_jumped (snd (call_fixture f ev g)) = has_jumped g \<and>
   total_tests (g_ezctest_result (snd (call_fixture f ev g))) = total_tests (g_ezctest_result g) \<and>
   passed_tests (g_ezctest_result (snd (call_fixture f ev g))) = passed_tests (g_ezctest_result g) \<and>
   failed_tests (g_ezctest_result (snd (call_fixture f ev g))) = failed_tests (g_ezctest_result g)"
  using exec_stmts_frame [of _ "emit ev g"]
  by (cases f) (simp_all add: call_fixture_def emit_def)

lemma call_fixture_filter:
  assumes "\<And>e. stmt_event e \<Longrightarrow> \<not> P e"
  shows "filter P (trace (snd (call_fixture f ev g))) =
         filter P (trace g) @ (if f \<noteq> None \<and> P ev then [ev] else [])"
  using exec_stmts_filter [of P _ "emit ev g", OF assms]
  by (cases f) (simp_all add: call_fixture_def emit_def)

lemma call_fixture_stack:
  "length (g_ezctest_defer_stack g) \<le> EZCTEST_MAX_DEFER_CALLBACKS \<Longrightarrow>
   g_ezctest_defer_stack (snd (call_fixture f ev g)) =
     take EZCTEST_MAX_DEFER_CALLBACKS (g_ezctest_defer_stack g @ deferred (body_of f))"
  using exec_stmts_stack [of "emit ev g"]
  by (cases f) (simp_all add: call_fixture_def emit_def body_of_def)

lemma call_fixture_exit:
  "has_jumped g \<Longrightarrow> fst (call_fixture f ev g) = (if aborts (body_of f) then Jumped else Returned)"
  using exec_stmts_exit [of "emit ev g"]
  by (cases f) (simp_all add: call_fixture_def emit_def body_of_def)

lemma call_fixture_current_failed:
  "g_ezctest_current_failed (snd (call_fixture f ev g)) =
     (g_ezctest_current_failed g \<or> aborts (body_of f))"
  using exec_stmts_current_failed [of _ "emit ev g"]
  by (cases f) (simp_all add: call_fixture_def emit_def body_of_def)

lemma call_fixture_failures:
  "failed_assertions (g_ezctest_result (snd (call_fixture f ev g))) =
     failed_assertions (g_ezctest_result g) + of_nat (failures (body_of f))"
  using exec_stmts_failures [of _ "emit ev g"]
  by (cases f) (simp_all add: call_fixture_def emit_def body_of_def)

lemma guard_eq:
  "ezctest_run_test_with_exception_guard test fixture g =
     (if fst (setup_run fixture g) = Jumped then (2, snd (setup_run fixture g))
      else if fst (exec_stmts (test_func test) (snd (setup_run fixture g))) = Jumped
      then (2, snd (exec_stmts (test_func test) (snd (setup_run fixture g))))
      else (0, snd (exec_stmts (test_func test) (snd (setup_run fixture g)))))"
  by (simp add: ezctest_run_test_with_exception_guard_def setup_run_def Let_def split_beta
           split: option.splits)

lemma setup_run_props:
  "has_jumped (snd (setup_run fixture g)) \<and>
   fst (setup_run fixture g) = (if aborts (setup_stmts fixture) then Jumped else Returned) \<and>
   g_ezctest_current_failed (snd (setup_run fixture g)) =
     (g_ezctest_current_failed g \<or> aborts (setup_stmts fixture)) \<and>
   failed_assertions (g_ezctest_result (snd (setup_run fixture g))) =
     failed_assertions (g_ezctest_result g) + of_nat (failures (setup_stmts fixture)) \<and>
   g_ezctest_registry (snd (setup_run fixture g)) = g_ezctest_registry g \<and>
   g_ezctest_config (snd (setup_run fixture g)) = g_ezctest_config g \<and>
   g_ezctest_fixtures (snd (setup_run fixture g)) = g_ezctest_fixtures g \<and>
   g_ezctest_worker_index (snd (setup_run fixture g)) = g_ezctest_worker_index g \<and>
   total_tests (g_ezctest_result (snd (setup_run fixture g))) = total_tests (g_ezctest_result g) \<and>
   passed_tests (g_ezctest_result (snd (setup_run fixture g))) = passed_tests (g_ezctest_result g) \<and>
   failed_tests (g_ezctest_result (snd (setup_run fixture g))) = failed_tests (g_ezctest_result g)"
proof (cases fixture)
  case None
  then show ?thesis by (simp add: setup_run_def setup_stmts_def)
next
  case (Some fx)
  let ?g = "g\<lparr>has_jumped := True\<rparr>"
  let ?ev = "SetupCalled (fx_suite_name fx)"
  have b: "setup_stmts fixture = body_of (fx_setup fx)"
    using Some by (simp add: setup_stmts_def body_of_def)
  show ?thesis
    using Some b call_fixture_frame [of "fx_setup fx" ?ev ?g]
      call_fixture_exit [of ?g "fx_setup fx" ?ev]
      call_fixture_current_failed [of "fx_setup fx" ?ev ?g]
      call_fixture_failures [of "fx_setup fx" ?ev ?g]
    by (simp add: setup_run_def)
qed

lemma setup_run_stack:
  "length (g_ezctest_defer_stack g) \<le> EZCTEST_MAX_DEFER_CALLBACKS \<Longrightarrow>
   g_ezctest_defer_stack (snd (setup_run fixture g)) =
     take EZCTEST_MAX_DEFER_CALLBACKS (g_ezctest_defer_stack g @ deferred (setup_stmts fixture))"
proof (cases fixture)
  case None
  assume "length (g_ezctest_defer_stack g) \<le> EZCTEST_MAX_DEFER_CALLBACKS"
  with None show ?thesis by (simp add: setup_run_def setup_stmts_def)
next
  case (Some fx)
  assume "length (g_ezctest_defer_stack g) \<le> EZCTEST_MAX_DEFER_CALLBACKS"
  then show ?thesis
    using Some call_fixture_stack [of "g\<lparr>has_jumped := True\<rparr>" "fx_setup fx" "SetupCalled (fx_suite_name fx)"]
    by (simp add: setup_run_def setup_stmts_def body_of_def)
qed

lemma setup_run_filter:
  assumes "\<And>e. stmt_event e \<Longrightarrow> \<not> P e" and "\<And>a. \<not> P (SetupCalled a)"
  shows "filter P (trace (snd (setup_run fixture g))) = filter P (trace g)"
proof (cases fixture)
  case None
  then show ?thesis by (simp add: setup_run_def)
next
  case (Some fx)
  then show ?thesis
    using call_fixture_filter [of P "fx_setup fx" "SetupCalled (fx_suite_name fx)" "g\<lparr>has_jumped := True\<rparr>", OF assms(1)] assms(2)
    by (simp add: setup_run_def)
qed

lemma guard_exit:
  "fst (ezctest_run_test_with_exception_guard test fixture g) =
     (if aborts (setup_stmts fixture) \<or> aborts (test_func test) then 2 else 0)"
  using setup_run_props [of fixture g]
    exec_stmts_exit [of "snd (setup_run fixture g)" "test_func test"]
  by (simp add: guard_eq)

lemma guard_frame:
  "g_ezctest_registry (snd (ezctest_run_test_with_exception_guard test fixture g)) = g_ezctest_registry g \<and>
   g_ezctest_config (snd (ezctest_run_test_with_exception_guard test fixture g)) = g_ezctest_config g \<and>
   g_ezctest_fixtures (snd (ezctest_run_test_with_exception_guard test fixture g)) = g_ezctest_fixtures g \<and>
   g_ezctest_worker_index (snd (ezctest_run_test_with_exception_guard test fixture g)) = g_ezctest_worker_index g \<and>
   total_tests (g_ezctest_result (snd (ezctest_run_test_with_exception_guard test fixture g))) = total_tests (g_ezctest_result g) \<and>
   passed_tests (g_ezctest_result (snd (ezctest_run_test_with_exception_guard test fixture g))) = passed_tests (g_ezctest_result g) \<and>
   failed_tests (g_ezctest_result (snd (ezctest_run_test_with_exception_guard test fixture g))) = failed_tests (g_ezctest_result g)"
  using setup_run_props [of fixture g]
    exec_stmts_frame [of "test_func test" "snd (setup_run fixture g)"]
  by (simp add: guard_eq)

lemma guard_current_failed:
  "g_ezctest_current_failed (snd (ezctest_run_test_with_exception_guard test fixture g)) =
     (g_ezctest_current_failed g \<or> aborts (setup_stmts fixture) \<or> aborts (test_func test))"
  using setup_run_props [of fixture g]
    exec_stmts_current_failed [of "test_func test" "snd (setup_run fixture g)"]
    exec_stmts_exit [of "snd (setup_run fixture g)" "test_func test"]
  by (auto simp: guard_eq)

lemma guard_failures:
  "failed_assertions (g_ezctest_result (snd (ezctest_run_test_with_exception_guard test fixture g))) =
     failed_assertions (g_ezctest_result g) +
     of_nat (failures (setup_stmts fixture) +
             (if aborts (setup_stmts fixture) then 0 else failures (test_func test)))"
  using setup_run_props [of fixture g]
    exec_stmts_failures [of "test_func test" "snd (setup_run fixture g)"]
  by (simp add: guard_eq)

lemma guard_stack:
  assumes "length (g_ezctest_defer_stack g) \<le> EZCTEST_MAX_DEFER_CALLBACKS"
  shows "g_ezctest_defer_stack (snd (ezctest_run_test_with_exception_guard test fixture g)) =
     take EZCTEST_MAX_DEFER_CALLBACKS
       (g_ezctest_defer_stack g @ deferred (setup_stmts fixture) @
        (if aborts (setup_stmts fixture) then [] else deferred (test_func test)))"
proof -
  let ?s = "snd (setup_run fixture g)"
  have st: "g_ezctest_defer_stack ?s =
      take EZCTEST_MAX_DEFER_CALLBACKS (g_ezctest_defer_stack g @ deferred (setup_stmts fixture))"
    using assms by (rule setup_run_stack)
  then have len: "length (g_ezctest_defer_stack ?s) \<le> EZCTEST_MAX_DEFER_CALLBACKS" by simp
  have "g_ezctest_defer_stack (snd (exec_stmts (test_func test) ?s)) =
      take EZCTEST_MAX_DEFER_CALLBACKS (g_ezctest_defer_stack ?s @ deferred (test_func test))"
    by (rule exec_stmts_stack [OF len])
  also have "\<dots> = take EZCTEST_MAX_DEFER_CALLBACKS
      (take EZCTEST_MAX_DEFER_CALLBACKS (g_ezctest_defer_stack g @ deferred (setup_stmts fixture))
         @ deferred (test_func test))"
    by (simp only: st)
  also have "\<dots> = take EZCTEST_MAX_DEFER_CALLBACKS
      ((g_ezctest_defer_stack g @ deferred (setup_stmts fixture)) @ deferred (test_func test))"
    by (rule take_take_append)
  finally have body: "g_ezctest_defer_stack (snd (exec_stmts (test_func test) ?s)) =
      take EZCTEST_MAX_DEFER_CALLBACKS
        (g_ezctest_defer_stack g @ deferred (setup_stmts fixture) @ deferred (test_func test))"
    by (simp only: append_assoc)
  show ?thesis
  proof (cases "aborts (setup_stmts fixture)")
    case True
    then have "snd (ezctest_run_test_with_exception_guard test fixture g) = ?s"
      using setup_run_props [of fixture g] by (simp add: guard_eq)
    then show ?thesis using True by (simp only: st if_True append_Nil2)
  next
    case False
    then have "snd (ezctest_run_test_with_exception_guard test fixture g) =
        snd (exec_stmts (test_func test) ?s)"
      using setup_run_props [of fixture g] by (simp add: guard_eq)
    then show ?thesis using False by (simp only: body if_False)
  qed
qed

lemma guard_filter:
  assumes "\<And>e. stmt_event e \<Longrightarrow> \<not> P e" and "\<And>a. \<not> P (SetupCalled a)"
  shows "filter P (trace (snd (ezctest_run_test_with_exception_guard test fixture g))) =
         filter P (trace g)"
  using setup_run_filter [of P fixture g, OF assms]
    exec_stmts_filter [of P "test_func test" "snd (setup_run fixture g)", OF assms(1)]
  by (simp add: guard_eq)

lemma guard_truncate:
  "ezctest_run_test_with_exception_guard (test\<lparr>test_func := pre @ ASSERT_TRUE False # post\<rparr>) fixture g =
   ezctest_run_test_with_exception_guard (test\<lparr>test_func := pre @ [ASSERT_TRUE False]\<rparr>) fixture g"
  by (simp add: guard_eq exec_stmts_truncate [of pre post])

lemma before_guard_fixtures: "g_ezctest_fixtures (before_guard test g) = g_ezctest_fixtures g"
  by (simp add: before_guard_def ezctest_defer_clear_def emit_def Let_def)

lemma run_test_eq:
  "ezctest_run_test test g =
     (if current_test_failed (before_verdict test g)
      then (emit (FailedLine (suite_name test) (test_name test)) (before_verdict test g))
             \<lparr>g_ezctest_result := (g_ezctest_result (before_verdict test g))
                \<lparr>failed_tests := failed_tests (g_ezctest_result (before_verdict test g)) + 1\<rparr>\<rparr>
      else (emit (OkLine (suite_name test) (test_name test)) (before_verdict test g))
             \<lparr>g_ezctest_result := (g_ezctest_result (before_verdict test g))
                \<lparr>passed_tests := passed_tests (g_ezctest_result (before_verdict test g)) + 1\<rparr>\<rparr>)"
proof -
  have ff: "ezctest_find_fixture (suite_name test) (before_guard test g) =
            ezctest_find_fixture (suite_name test) g"
    by (simp add: ezctest_find_fixture_def before_guard_fixtures)
  have bg: "(if \<not> 0 \<le> g_ezctest_worker_index g
        then emit (RunLine (suite_name test) (test_name test))
               (ezctest_defer_clear (g\<lparr>g_ezctest_current_failed := False,
                    g_ezctest_current_assertion_failed := False\<rparr>))
        else ezctest_defer_clear (g\<lparr>g_ezctest_current_failed := False,
                    g_ezctest_current_assertion_failed := False\<rparr>)) = before_guard test g"
    by (simp add: before_guard_def Let_def)
  show ?thesis
    unfolding ezctest_run_test_def Let_def split_beta bg ff
    unfolding before_verdict_def after_teardown_def after_cleanup_def after_guard_def
      guard_exit ff
    by (simp split: option.splits)
qed

lemma before_guard_props:
  "g_ezctest_defer_stack (before_guard test g) = [] \<and>
   \<not> g_ezctest_current_failed (before_guard test g) \<and>
   \<not> g_ezctest_current_assertion_failed (before_guard test g) \<and>
   g_ezctest_result (before_guard test g) = g_ezctest_result g \<and>
   g_ezctest_registry (before_guard test g) = g_ezctest_registry g \<and>
   g_ezctest_config (before_guard test g) = g_ezctest_config g \<and>
   g_ezctest_worker_index (before_guard test g) = g_ezctest_worker_index g"
  by (simp add: before_guard_def ezctest_defer_clear_def emit_def Let_def)

lemma before_guard_filter:
  "(\<And>a b. \<not> P (RunLine a b)) \<Longrightarrow> filter P (trace (before_guard test g)) = filter P (trace g)"
  by (simp add: before_guard_def ezctest_defer_clear_def emit_def Let_def)

lemma after_guard_stack:
  "g_ezctest_defer_stack (after_guard test g) =
     pushed_callbacks test (ezctest_find_fixture (suite_name test) g)"
  using guard_stack [of "before_guard test g" test "ezctest_find_fixture (suite_name test) g"]
    before_guard_props [of test g]
  by (simp add: after_guard_def pushed_callbacks_def)

lemma after_guard_filter:
  assumes "\<And>e. stmt_event e \<Longrightarrow> \<not> P e" and "\<And>a. \<not> P (SetupCalled a)"
    and "\<And>a b. \<not> P (RunLine a b)"
  shows "filter P (trace (after_guard test g)) = filter P (trace g)"
  unfolding after_guard_def
  using guard_filter [of P test "ezctest_find_fixture (suite_name test) g" "before_guard test g",
      OF assms(1,2)]
    before_guard_filter [of P test g, OF assms(3)]
  by simp

lemma after_guard_props:
  "g_ezctest_current_failed (after_guard test g) =
     (aborts (setup_stmts (ezctest_find_fixture (suite_name test) g)) \<or> aborts (test_func test)) \<and>
   failed_assertions (g_ezctest_result (after_guard test g)) =
     failed_assertions (g_ezctest_result g) +
     of_nat (failures (setup_stmts (ezctest_find_fixture (suite_name test) g)) +
             (if aborts (setup_stmts (ezctest_find_fixture (suite_name test) g)) then 0
              else failures (test_func test))) \<and>
   total_tests (g_ezctest_result (after_guard test g)) = total_tests (g_ezctest_result g) \<and>
   passed_tests (g_ezctest_result (after_guard test g)) = passed_tests (g_ezctest_result g) \<and>
   failed_tests (g_ezctest_result (after_guard test g)) = failed_tests (g_ezctest_result g) \<and>
   g_ezctest_registry (after_guard test g) = g_ezctest_registry g \<and>
   g_ezctest_config (after_guard test g) = g_ezctest_config g \<and>
   g_ezctest_fixtures (after_guard test g) = g_ezctest_fixtures g \<and>
   g_ezctest_worker_index (after_guard test g) = g_ezctest_worker_index g"
  unfolding after_guard_def
  using guard_current_failed [of test "ezctest_find_fixture (suite_name test) g" "before_guard test g"]
    guard_failures [of test "ezctest_find_fixture (suite_name test) g" "before_guard test g"]
    guard_frame [of test "ezctest_find_fixture (suite_name test) g" "before_guard test g"]
    before_guard_props [of test g] before_guard_fixtures [of test g]
  by simp

lemma after_cleanup_props:
  "g_ezctest_current_failed (after_cleanup test g) = g_ezctest_current_failed (after_guard test g) \<and>
   g_ezctest_result (after_cleanup test g) = g_ezctest_result (after_guard test g) \<and>
   g_ezctest_registry (after_cleanup test g) = g_ezctest_registry g \<and>
   g_ezctest_config (after_cleanup test g) = g_ezctest_config g \<and>
   g_ezctest_fixtures (after_cleanup test g) = g_ezctest_fixtures g \<and>
   g_ezctest_worker_index (after_cleanup test g) = g_ezctest_worker_index g \<and>
   \<not> has_jumped (after_cleanup test g)"
  using defer_execute_loop_frame [of _ "(after_guard test g)\<lparr>has_jumped := False\<rparr>"]
    after_guard_props [of test g]
  by (simp add: after_cleanup_def ezctest_defer_clear_def ezctest_defer_execute_def)

lemma after_cleanup_calls:
  "filter is_cleanup (trace (after_cleanup test g)) =
     filter is_cleanup (trace g) @
     calls_of (rev (pushed_callbacks test (ezctest_find_fixture (suite_name test) g)))"
proof -
  have "filter is_cleanup (trace (after_guard test g)) = filter is_cleanup (trace g)"
    by (rule after_guard_filter) (auto simp: is_cleanup_def stmt_event_def split: event.splits)
  then show ?thesis
    using defer_execute_loop_cleanup [of _ "(after_guard test g)\<lparr>has_jumped := False\<rparr>"]
    by (simp add: after_cleanup_def ezctest_defer_clear_def ezctest_defer_execute_def
          after_guard_stack)
qed

lemma after_cleanup_filter:
  assumes "\<And>e. stmt_event e \<Longrightarrow> \<not> P e" and "\<And>a. \<not> P (SetupCalled a)"
    and "\<And>a b. \<not> P (RunLine a b)" and "\<And>f d. \<not> P (CleanupCalled f d)"
  shows "filter P (trace (after_cleanup test g)) = filter P (trace g)"
  using defer_execute_loop_filter [of P _ "(after_guard test g)\<lparr>has_jumped := False\<rparr>", OF assms(4)]
    after_guard_filter [of P test g, OF assms(1,2,3)]
  by (simp add: after_cleanup_def ezctest_defer_clear_def ezctest_defer_execute_def)

lemma after_teardown_filter:
  assumes "\<And>e. stmt_event e \<Longrightarrow> \<not> P e"
  shows "filter P (trace (after_teardown test g)) =
         filter P (trace (after_cleanup test g)) @
         filter P (teardown_event (ezctest_find_fixture (suite_name test) g))"
proof (cases "ezctest_find_fixture (suite_name test) g")
  case None
  then show ?thesis by (simp add: after_teardown_def teardown_event_def)
next
  case (Some fx)
  then show ?thesis
    using call_fixture_filter [of P "fx_teardown fx" "TeardownCalled (fx_suite_name fx)"
        "after_cleanup test g", OF assms]
    by (cases "fx_teardown fx") (simp_all add: after_teardown_def teardown_event_def)
qed

lemma after_teardown_props:
  "(g_ezctest_current_failed (after_guard test g) \<longrightarrow> g_ezctest_current_failed (after_teardown test g)) \<and>
   failed_assertions (g_ezctest_result (after_teardown test g)) =
     failed_assertions (g_ezctest_result (after_guard test g)) +
     of_nat (failures (teardown_stmts (ezctest_find_fixture (suite_name test) g))) \<and>
   total_tests (g_ezctest_result (after_teardown test g)) = total_tests (g_ezctest_result g) \<and>
   passed_tests (g_ezctest_result (after_teardown test g)) = passed_tests (g_ezctest_result g) \<and>
   failed_tests (g_ezctest_result (after_teardown test g)) = failed_tests (g_ezctest_result g) \<and>
   g_ezctest_registry (after_teardown test g) = g_ezctest_registry g \<and>
   g_ezctest_config (after_teardown test g) = g_ezctest_config g \<and>
   g_ezctest_fixtures (after_teardown test g) = g_ezctest_fixtures g \<and>
   g_ezctest_worker_index (after_teardown test g) = g_ezctest_worker_index g"
proof (cases "ezctest_find_fixture (suite_name test) g")
  case None
  then show ?thesis
    using after_cleanup_props [of test g] after_guard_props [of test g]
    by (simp add: after_teardown_def teardown_stmts_def)
next
  case (Some fx)
  let ?ev = "TeardownCalled (fx_suite_name fx)"
  have b: "teardown_stmts (Some fx) = body_of (fx_teardown fx)"
    by (simp add: teardown_stmts_def body_of_def)
  show ?thesis
    using Some after_cleanup_props [of test g] after_guard_props [of test g]
      call_fixture_frame [of "fx_teardown fx" ?ev "after_cleanup test g"]
      call_fixture_current_failed [of "fx_teardown fx" ?ev "after_cleanup test g"]
      call_fixture_failures [of "fx_teardown fx" ?ev "after_cleanup test g"]
    by (simp add: after_teardown_def b)
qed

lemma before_verdict_props:
  "g_ezctest_current_failed (before_verdict test g) = g_ezctest_current_failed (after_teardown test g) \<and>
   g_ezctest_current_assertion_failed (before_verdict test g)
     = g_ezctest_current_assertion_failed (after_teardown test g) \<and>
   g_ezctest_result (before_verdict test g) = g_ezctest_result (after_teardown test g) \<and>
   g_ezctest_registry (before_verdict test g) = g_ezctest_registry g \<and>
   g_ezctest_config (before_verdict test g) = g_ezctest_config g \<and>
   g_ezctest_fixtures (before_verdict test g) = g_ezctest_fixtures g \<and>
   g_ezctest_worker_index (before_verdict test g) = g_ezctest_worker_index g"
  using after_teardown_props [of test g]
  by (simp add: before_verdict_def emit_def)

lemma before_verdict_filter:
  "\<not> P TerminatedByAssertLine \<Longrightarrow>
   filter P (trace (before_verdict test g)) = filter P (trace (after_teardown test g))"
  by (simp add: before_verdict_def emit_def)

text \<open>What running one test does to the statistics, the flags and the trace.\<close>

lemma run_test_verdict:
  "current_test_failed (ezctest_run_test test g) = current_test_failed (before_verdict test g)"
  by (simp add: run_test_eq current_test_failed_def emit_def)

lemma run_test_counts:
  "failed_tests (g_ezctest_result (ezctest_run_test test g)) =
     failed_tests (g_ezctest_result g) + (if current_test_failed (ezctest_run_test test g) then 1 else 0) \<and>
   passed_tests (g_ezctest_result (ezctest_run_test test g)) =
     passed_tests (g_ezctest_result g) + (if current_test_failed (ezctest_run_test test g) then 0 else 1) \<and>
   total_tests (g_ezctest_result (ezctest_run_test test g)) = total_tests (g_ezctest_result g)"
  using before_verdict_props [of test g] after_teardown_props [of test g]
  by (simp add: run_test_verdict) (simp add: run_test_eq emit_def)


lemma run_test_last:
  "trace (ezctest_run_test test g) =
     trace (before_verdict test g) @
     [if current_test_failed (ezctest_run_test test g)
      then FailedLine (suite_name test) (test_name test)
      else OkLine (suite_name test) (test_name test)]"
  by (simp add: run_test_verdict) (simp add: run_test_eq emit_def)

lemma run_test_filter:
  assumes "\<And>e. engine_event e \<Longrightarrow> \<not> is_teardown_call e \<Longrightarrow> \<not> P e"
    and "\<And>f d. \<not> P (CleanupCalled f d)"
  shows "filter P (trace (ezctest_run_test test g)) =
         filter P (trace g) @ filter P (teardown_event (ezctest_find_fixture (suite_name test) g))"
proof -
  have s: "\<not> P e" if "stmt_event e" for e
    using that assms(1) [of e]
    by (cases e) (simp_all add: stmt_event_def engine_event_def is_teardown_call_def)
  have l: "\<not> P (SetupCalled a)" "\<not> P (RunLine a b)" "\<not> P (OkLine a b)" "\<not> P (FailedLine a b)"
      "\<not> P TerminatedByAssertLine" for a b
    using assms(1) by (simp_all add: engine_event_def is_teardown_call_def)
  have "filter P (trace (before_verdict test g)) =
      filter P (trace g) @ filter P (teardown_event (ezctest_find_fixture (suite_name test) g))"
    using before_verdict_filter [of P test g, OF l(5)]
      after_teardown_filter [of P test g, OF s]
      after_cleanup_filter [of P test g, OF s l(1) l(2) assms(2)]
    by simp
  then show ?thesis
    using l by (simp add: run_test_last)
qed

lemma run_test_cleanup_calls:
  "filter is_cleanup (trace (ezctest_run_test test g)) =
     filter is_cleanup (trace g) @
     calls_of (rev (pushed_callbacks test (ezctest_find_fixture (suite_name test) g)))"
proof -
  have t: "filter is_cleanup (teardown_event f) = []" for f
    by (simp add: teardown_event_def is_cleanup_def split: option.splits)
  have "filter is_cleanup (trace (before_verdict test g)) =
      filter is_cleanup (trace g) @
      calls_of (rev (pushed_callbacks test (ezctest_find_fixture (suite_name test) g)))"
    using before_verdict_filter [of is_cleanup test g]
      after_teardown_filter [of is_cleanup test g]
      after_cleanup_calls [of test g] t
    by (simp add: is_cleanup_def stmt_event_def split: event.splits)
  then show ?thesis
    by (simp add: run_test_last is_cleanup_def)
qed

lemma run_test_truncate:
  "ezctest_run_test (test\<lparr>test_func := pre @ ASSERT_TRUE False # post\<rparr>) g =
   ezctest_run_test (test\<lparr>test_func := pre @ [ASSERT_TRUE False]\<rparr>) g"
proof -
  have a: "aborts (pre @ ASSERT_TRUE False # post) = aborts (pre @ [ASSERT_TRUE False])"
    by (induction pre rule: aborts.induct) simp_all
  let ?t1 = "test\<lparr>test_func := pre @ ASSERT_TRUE False # post\<rparr>"
  let ?t2 = "test\<lparr>test_func := pre @ [ASSERT_TRUE False]\<rparr>"
  have bg: "before_guard ?t1 g = before_guard ?t2 g"
    by (simp add: before_guard_def Let_def)
  have ag: "after_guard ?t1 g = after_guard ?t2 g"
    using guard_truncate [where pre = pre and post = post and test = test]
    by (simp add: after_guard_def bg)
  have ac: "after_cleanup ?t1 g = after_cleanup ?t2 g"
    by (simp add: after_cleanup_def ag)
  have at: "after_teardown ?t1 g = after_teardown ?t2 g"
    by (simp add: after_teardown_def ac split: option.splits)
  have "before_verdict ?t1 g = before_verdict ?t2 g"
    by (simp add: before_verdict_def at a)
  then show ?thesis by (simp add: run_test_eq)
qed

lemma aborts_append: "aborts (xs @ ys) = (aborts xs \<or> aborts ys)"
  by (induction xs rule: aborts.induct) simp_all

lemma deferred_append: "\<not> aborts xs \<Longrightarrow> deferred (xs @ ys) = deferred xs @ deferred ys"
  by (induction xs rule: deferred.induct) simp_all

lemma exec_stmts_append:
  "\<not> aborts xs \<Longrightarrow> exec_stmts (xs @ ys) g = exec_stmts ys (snd (exec_stmts xs g))"
  by (induction xs g rule: exec_stmts.induct) simp_all

lemma exec_stmts_fatal:
  assumes "\<not> aborts pre" and "has_jumped s"
  shows "exec_stmts (pre @ ASSERT_TRUE False # post) s =
           (Jumped, ezctest_assertion_failed True (snd (exec_stmts pre s)))"
proof -
  have "has_jumped (snd (exec_stmts pre s))"
    using assms(2) exec_stmts_frame [of pre s] by simp
  then have "has_jumped (ezctest_assertion_failed True (snd (exec_stmts pre s)))"
    by (simp add: ezctest_assertion_failed_def emit_def Let_def)
  then show ?thesis
    using exec_stmts_append [OF assms(1)] by (simp add: Let_def)
qed

text \<open>Counting in a 32-bit \<open>int\<close>: below the largest value, adding is exact.\<close>

lemma sint_add_nat:
  fixes w :: "32 word"
  assumes "sint w + int n \<le> 2147483647"
  shows "sint (w + of_nat n) = sint w + int n"
proof -
  have "w + of_nat n = word_of_int (sint w + int n)"
    by simp
  then have "sint (w + of_nat n) = signed_take_bit 31 (sint w + int n)"
    by (simp only: sint_sbintrunc') simp
  moreover have "- (2 ^ 31) \<le> sint w"
    using sint_ge [of w] by simp
  ultimately show ?thesis
    using assms by (simp add: signed_take_bit_int_eq_self)
qed

lemma failures_append:
  "\<not> aborts xs \<Longrightarrow> failures (xs @ ys) = failures xs + failures ys"
  by (induction xs rule: failures.induct) simp_all

text \<open>
  C4. The cleanup callbacks called by one test execution are the callbacks that are on
  the stack when the test body is left, that is the ones pushed by setup and by the test
  function as far as the stack accepted them, NULL pointers apart, called once each in
  the reverse of the order in which they were pushed. This holds for every body: one
  that returns normally, one with failed non-fatal assertions, and one that a fatal
  assertion aborts.
\<close>

theorem cleanup_stack_is_lifo:
  "filter is_cleanup (trace (ezctest_run_test test g)) =
     filter is_cleanup (trace g) @
     calls_of (rev (pushed_callbacks test (ezctest_find_fixture (suite_name test) g)))"
  by (rule run_test_cleanup_calls)

theorem cleanup_stack_is_lifo_witness:
  "filter is_cleanup (trace (ezctest_run_test (defer_test [EXPECT_TRUE True]) initial_globals))
     = [CleanupCalled 3 30, CleanupCalled 2 20, CleanupCalled 1 10] \<and>
   filter is_cleanup (trace (ezctest_run_test (defer_test [EXPECT_TRUE False, STEP 5]) initial_globals))
     = [CleanupCalled 3 30, CleanupCalled 2 20, CleanupCalled 1 10] \<and>
   filter is_cleanup (trace (ezctest_run_test (defer_test [ASSERT_TRUE False, DEFER (Some 4) 40]) initial_globals))
     = [CleanupCalled 3 30, CleanupCalled 2 20, CleanupCalled 1 10]"
  using cleanup_stack_is_lifo [of "defer_test [EXPECT_TRUE True]" initial_globals]
    cleanup_stack_is_lifo [of "defer_test [EXPECT_TRUE False, STEP 5]" initial_globals]
    cleanup_stack_is_lifo [of "defer_test [ASSERT_TRUE False, DEFER (Some 4) 40]" initial_globals]
  by (simp add: pushed_callbacks_def defer_test_def initial_globals_def ezctest_find_fixture_def
        setup_stmts_def EZCTEST_MAX_DEFER_CALLBACKS_def)

text \<open>
  C3. A test function that reaches a failing fatal assertion records the failure and is
  left through the jump at once: the statements behind the assertion have no effect
  whatever. The callbacks pushed until then are still called, in reverse order and once
  each, the teardown of the suite is still called once, the test is counted and printed
  as failed, and \<open>ezctest_run_test\<close> returns to its caller. The counters are the
  32-bit \<open>int\<close> variables of the code: the number of failed tests goes up by one, the
  number of failed assertions by the failed assertions of setup, of the statements
  before the fatal assertion, of that assertion and of teardown, and it is larger than
  before as a signed value as long as that sum does not pass the largest \<open>int\<close>.
\<close>

theorem fatal_assertion_aborts_body:
  assumes body: "test_func test = pre @ ASSERT_TRUE False # post"
    and pre: "\<not> aborts pre"
    and su: "\<not> aborts (setup_stmts (ezctest_find_fixture (suite_name test) g))"
  shows "(\<forall>s. has_jumped s \<longrightarrow>
            exec_stmts (test_func test) s =
              (Jumped, ezctest_assertion_failed True (snd (exec_stmts pre s)))) \<and>
         ezctest_run_test test g = ezctest_run_test (test\<lparr>test_func := pre @ [ASSERT_TRUE False]\<rparr>) g \<and>
         g_ezctest_current_failed (ezctest_run_test test g) \<and>
         failed_assertions (g_ezctest_result (ezctest_run_test test g)) =
           failed_assertions (g_ezctest_result g) +
           of_nat (failures (setup_stmts (ezctest_find_fixture (suite_name test) g)) +
                   failures pre + 1 +
                   failures (teardown_stmts (ezctest_find_fixture (suite_name test) g))) \<and>
         (sint (failed_assertions (g_ezctest_result g)) +
            int (failures (setup_stmts (ezctest_find_fixture (suite_name test) g)) +
                 failures pre + 1 +
                 failures (teardown_stmts (ezctest_find_fixture (suite_name test) g)))
            \<le> 2147483647 \<longrightarrow>
          sint (failed_assertions (g_ezctest_result g))
            < sint (failed_assertions (g_ezctest_result (ezctest_run_test test g)))) \<and>
         filter is_cleanup (trace (ezctest_run_test test g)) =
           filter is_cleanup (trace g) @
           calls_of (rev (take EZCTEST_MAX_DEFER_CALLBACKS
             (deferred (setup_stmts (ezctest_find_fixture (suite_name test) g)) @ deferred pre))) \<and>
         filter is_teardown_call (trace (ezctest_run_test test g)) =
           filter is_teardown_call (trace g) @
           teardown_event (ezctest_find_fixture (suite_name test) g) \<and>
         failed_tests (g_ezctest_result (ezctest_run_test test g)) = failed_tests (g_ezctest_result g) + 1 \<and>
         passed_tests (g_ezctest_result (ezctest_run_test test g)) = passed_tests (g_ezctest_result g) \<and>
         last (trace (ezctest_run_test test g)) = FailedLine (suite_name test) (test_name test)"
proof -
  let ?g' = "ezctest_run_test test g"
  let ?k = "failures (setup_stmts (ezctest_find_fixture (suite_name test) g)) +
            failures pre + 1 +
            failures (teardown_stmts (ezctest_find_fixture (suite_name test) g))"
  have ab: "aborts (test_func test)"
    by (simp add: body aborts_append)
  have exec: "\<forall>s. has_jumped s \<longrightarrow>
            exec_stmts (test_func test) s =
              (Jumped, ezctest_assertion_failed True (snd (exec_stmts pre s)))"
    using exec_stmts_fatal [OF pre] by (simp add: body)
  have "test = test\<lparr>test_func := pre @ ASSERT_TRUE False # post\<rparr>"
    using body by simp
  then have trunc: "?g' = ezctest_run_test (test\<lparr>test_func := pre @ [ASSERT_TRUE False]\<rparr>) g"
    using run_test_truncate [where test = test and pre = pre and post = post and g = g] by simp
  have cf_guard: "g_ezctest_current_failed (after_guard test g)"
    using after_guard_props [of test g] ab by simp
  then have cf_bv: "g_ezctest_current_failed (before_verdict test g)"
    using after_teardown_props [of test g] before_verdict_props [of test g] by simp
  then have "current_test_failed (before_verdict test g)"
    by (simp add: current_test_failed_def)
  then have failed: "current_test_failed ?g'"
    by (simp add: run_test_verdict)
  have cf: "g_ezctest_current_failed ?g'"
    using cf_bv by (simp add: run_test_eq emit_def)
  have "failed_assertions (g_ezctest_result ?g') =
        failed_assertions (g_ezctest_result (after_teardown test g))"
    using before_verdict_props [of test g] by (simp add: run_test_eq emit_def)
  moreover have "failures (test_func test) = failures pre + 1"
    using pre by (simp add: body failures_append)
  ultimately have fa: "failed_assertions (g_ezctest_result ?g') =
      failed_assertions (g_ezctest_result g) + of_nat ?k"
    using after_guard_props [of test g] after_teardown_props [of test g] su
    by (simp add: add.assoc)
  have fs: "sint (failed_assertions (g_ezctest_result g)) + int ?k \<le> 2147483647 \<longrightarrow>
      sint (failed_assertions (g_ezctest_result g)) < sint (failed_assertions (g_ezctest_result ?g'))"
  proof
    assume "sint (failed_assertions (g_ezctest_result g)) + int ?k \<le> 2147483647"
    from sint_add_nat [OF this] show
      "sint (failed_assertions (g_ezctest_result g)) < sint (failed_assertions (g_ezctest_result ?g'))"
      by (simp add: fa)
  qed
  have "pushed_callbacks test (ezctest_find_fixture (suite_name test) g) =
        take EZCTEST_MAX_DEFER_CALLBACKS
          (deferred (setup_stmts (ezctest_find_fixture (suite_name test) g)) @ deferred pre)"
    using su pre by (simp add: pushed_callbacks_def body deferred_append)
  then have cl: "filter is_cleanup (trace ?g') =
           filter is_cleanup (trace g) @
           calls_of (rev (take EZCTEST_MAX_DEFER_CALLBACKS
             (deferred (setup_stmts (ezctest_find_fixture (suite_name test) g)) @ deferred pre)))"
    using run_test_cleanup_calls [of test g] by simp
  have "filter is_teardown_call (teardown_event f) = teardown_event f" for f
    by (simp add: teardown_event_def is_teardown_call_def split: option.splits)
  then have td: "filter is_teardown_call (trace ?g') =
           filter is_teardown_call (trace g) @
           teardown_event (ezctest_find_fixture (suite_name test) g)"
    using run_test_filter [of is_teardown_call test g]
    by (simp add: is_teardown_call_def)
  have counts: "failed_tests (g_ezctest_result ?g') = failed_tests (g_ezctest_result g) + 1"
      "passed_tests (g_ezctest_result ?g') = passed_tests (g_ezctest_result g)"
    using run_test_counts [of test g] failed by simp_all
  have lst: "last (trace ?g') = FailedLine (suite_name test) (test_name test)"
    using run_test_last [of test g] failed by simp
  from exec trunc cf fa fs cl td counts lst show ?thesis by blast
qed

theorem fatal_assertion_aborts_body_witness:
  "test_func failing_test = [STEP 1] @ ASSERT_TRUE False # [STEP 2] \<and>
   \<not> aborts [STEP 1] \<and>
   \<not> aborts (setup_stmts (ezctest_find_fixture (suite_name failing_test) fixture_globals)) \<and>
   ezctest_run_test failing_test fixture_globals =
     ezctest_run_test (failing_test\<lparr>test_func := [STEP 1] @ [ASSERT_TRUE False]\<rparr>) fixture_globals \<and>
   g_ezctest_current_failed (ezctest_run_test failing_test fixture_globals) \<and>
   filter is_teardown_call (trace (ezctest_run_test failing_test fixture_globals)) =
     [TeardownCalled ''Foo''] \<and>
   failed_tests (g_ezctest_result (ezctest_run_test failing_test fixture_globals)) = 1 \<and>
   passed_tests (g_ezctest_result (ezctest_run_test failing_test fixture_globals)) = 0 \<and>
   failed_assertions (g_ezctest_result (ezctest_run_test failing_test fixture_globals)) = 1 \<and>
   sint (failed_assertions (g_ezctest_result fixture_globals))
     < sint (failed_assertions (g_ezctest_result (ezctest_run_test failing_test fixture_globals))) \<and>
   last (trace (ezctest_run_test failing_test fixture_globals)) = FailedLine ''Foo'' ''Broken''"
proof -
  have b: "test_func failing_test = [STEP 1] @ ASSERT_TRUE False # [STEP 2]"
    by (simp add: failing_test_def)
  have p: "\<not> aborts [STEP 1]" by simp
  have f: "ezctest_find_fixture (suite_name failing_test) fixture_globals = Some foo_fixture"
    by (simp add: ezctest_find_fixture_def failing_test_def fixture_globals_def foo_fixture_def)
  have s: "\<not> aborts (setup_stmts (ezctest_find_fixture (suite_name failing_test) fixture_globals))"
    by (simp add: f setup_stmts_def foo_fixture_def)
  have i: "filter is_teardown_call (trace fixture_globals) = []"
      "failed_tests (g_ezctest_result fixture_globals) = 0"
      "passed_tests (g_ezctest_result fixture_globals) = 0"
    by (simp_all add: fixture_globals_def initial_globals_def zero_result_def)
  have t: "teardown_event (Some foo_fixture) = [TeardownCalled ''Foo'']"
    by (simp add: teardown_event_def foo_fixture_def)
  have n: "suite_name failing_test = ''Foo''" "test_name failing_test = ''Broken''"
    by (simp_all add: failing_test_def)
  note th = fatal_assertion_aborts_body [OF b p s]
  from th have c1: "ezctest_run_test failing_test fixture_globals =
     ezctest_run_test (failing_test\<lparr>test_func := [STEP 1] @ [ASSERT_TRUE False]\<rparr>) fixture_globals"
    by blast
  from th have c2: "g_ezctest_current_failed (ezctest_run_test failing_test fixture_globals)"
    by blast
  from th have "filter is_teardown_call (trace (ezctest_run_test failing_test fixture_globals)) =
      filter is_teardown_call (trace fixture_globals) @
      teardown_event (ezctest_find_fixture (suite_name failing_test) fixture_globals)"
    by blast
  then have c3: "filter is_teardown_call (trace (ezctest_run_test failing_test fixture_globals)) =
      [TeardownCalled ''Foo'']"
    by (simp only: i f t append_Nil)
  from th have "failed_tests (g_ezctest_result (ezctest_run_test failing_test fixture_globals)) =
      failed_tests (g_ezctest_result fixture_globals) + 1"
    by blast
  then have c4: "failed_tests (g_ezctest_result (ezctest_run_test failing_test fixture_globals)) = 1"
    by (simp add: i)
  from th have "passed_tests (g_ezctest_result (ezctest_run_test failing_test fixture_globals)) =
      passed_tests (g_ezctest_result fixture_globals)"
    by blast
  then have c5: "passed_tests (g_ezctest_result (ezctest_run_test failing_test fixture_globals)) = 0"
    by (simp only: i)
  from th have "last (trace (ezctest_run_test failing_test fixture_globals)) =
      FailedLine (suite_name failing_test) (test_name failing_test)"
    by blast
  then have c6: "last (trace (ezctest_run_test failing_test fixture_globals)) =
      FailedLine ''Foo'' ''Broken''"
    by (simp only: n)
  have k: "failures (setup_stmts (ezctest_find_fixture (suite_name failing_test) fixture_globals)) +
           failures [STEP 1] + 1 +
           failures (teardown_stmts (ezctest_find_fixture (suite_name failing_test) fixture_globals)) = 1"
    by (simp add: f setup_stmts_def teardown_stmts_def foo_fixture_def)
  have z: "failed_assertions (g_ezctest_result fixture_globals) = 0"
    by (simp add: fixture_globals_def initial_globals_def zero_result_def)
  from th have "failed_assertions (g_ezctest_result (ezctest_run_test failing_test fixture_globals)) =
      failed_assertions (g_ezctest_result fixture_globals) +
      of_nat (failures (setup_stmts (ezctest_find_fixture (suite_name failing_test) fixture_globals)) +
              failures [STEP 1] + 1 +
              failures (teardown_stmts (ezctest_find_fixture (suite_name failing_test) fixture_globals)))"
    by blast
  then have c7: "failed_assertions (g_ezctest_result (ezctest_run_test failing_test fixture_globals)) = 1"
    by (simp only: k z) simp
  have bound: "sint (failed_assertions (g_ezctest_result fixture_globals)) +
      int (failures (setup_stmts (ezctest_find_fixture (suite_name failing_test) fixture_globals)) +
           failures [STEP 1] + 1 +
           failures (teardown_stmts (ezctest_find_fixture (suite_name failing_test) fixture_globals)))
      \<le> 2147483647"
    by (simp only: k z) simp
  from th bound have c8: "sint (failed_assertions (g_ezctest_result fixture_globals))
     < sint (failed_assertions (g_ezctest_result (ezctest_run_test failing_test fixture_globals)))"
    by blast
  from b p s c1 c2 c3 c4 c5 c6 c7 c8 show ?thesis by blast
qed


section \<open>The run as a whole\<close>

text \<open>
  What the loop over the iterations adds to the trace are lines of the test loop only,
  and the run is the summary printed in the state the loop leaves.
\<close>

lemma lf_run_test:
  assumes np: "\<And>ev. loop_event ev \<Longrightarrow> \<not> P ev"
  shows "filter P (trace (ezctest_run_test t g)) = filter P (trace g)"
proof -
  have a: "\<not> P ev" if "engine_event ev" for ev
    using that np [of ev] by (cases ev) (simp_all add: engine_event_def loop_event_def)
  have b: "\<not> P (CleanupCalled f d)" for f d
    using np by (simp add: loop_event_def)
  have "\<not> P (TeardownCalled a)" for a
    using np by (simp add: loop_event_def)
  then have c: "filter P (teardown_event f) = []" for f
    by (simp add: teardown_event_def split: option.splits)
  show ?thesis
    using run_test_filter [of P t g] a b by (simp add: c)
qed

lemma lf_exec_child:
  assumes np: "\<And>ev. loop_event ev \<Longrightarrow> \<not> P ev"
  shows "filter P (trace (snd (ezctest_exec_child e r t k g))) = filter P (trace g)"
proof -
  have "\<not> P ForkFailedLine" using np by (simp add: loop_event_def)
  then show ?thesis
    using lf_run_test [of P t "g\<lparr>g_ezctest_worker_index := int k, g_ezctest_result := zero_result\<rparr>", OF np]
    by (cases "fork_outcome e r k") (simp_all add: ezctest_exec_child_def Let_def emit_def)
qed

lemma lf_run_in_process:
  assumes np: "\<And>ev. loop_event ev \<Longrightarrow> \<not> P ev"
  shows "filter P (trace (run_in_process i g)) = filter P (trace g)"
  using lf_run_test [of P "g_ezctest_registry g ! i" g, OF np]
  by (simp add: run_in_process_def Let_def mark_failed_def)

lemma lf_run_isolated:
  assumes np: "\<And>ev. loop_event ev \<Longrightarrow> \<not> P ev"
  shows "filter P (trace (run_isolated e r i k g)) = filter P (trace g)"
proof -
  let ?t = "g_ezctest_registry g ! i"
  let ?g1 = "emit (RunLine (suite_name ?t) (test_name ?t)) g"
  let ?c = "ezctest_exec_child e r ?t k ?g1"
  have n: "\<not> P (RunLine a b)" "\<not> P FallbackLine" "\<not> P (AbnormalExitLines c)"
      "\<not> P (AbnormalFailedLine a b)" for a b c
    using np by (simp_all add: loop_event_def)
  have g2: "filter P (trace (snd ?c)) = filter P (trace g)"
    using lf_exec_child [of P e r ?t k ?g1, OF np] n by (simp add: emit_def)
  have fb: "filter P (trace (ezctest_run_test ?t (emit FallbackLine (snd ?c)))) = filter P (trace g)"
    using g2 n lf_run_test [of P ?t "emit FallbackLine (snd ?c)", OF np] by (simp add: emit_def)
  show ?thesis
    using g2 fb n
    by (simp add: run_isolated_def Let_def split_beta mark_failed_def add_passed_def add_failed_def
          emit_def)
qed

lemma lf_tests_loop:
  assumes np: "\<And>ev. loop_event ev \<Longrightarrow> \<not> P ev"
  shows "filter P (trace (tests_loop e isolate r idx k g)) = filter P (trace g)"
  by (induction e isolate r idx k g rule: tests_loop.induct)
     (simp_all add: lf_run_isolated [OF np] lf_run_in_process [OF np] add_total_def)

lemma lf_run_iteration:
  assumes np: "\<And>ev. loop_event ev \<Longrightarrow> \<not> P ev"
  shows "filter P (trace (run_iteration e isolate g r)) = filter P (trace g)"
proof -
  have "\<not> P (IterationLine a b)" for a b using np by (simp add: loop_event_def)
  then show ?thesis
    by (simp add: run_iteration_def Let_def lf_tests_loop [OF np] emit_def)
qed

lemma lf_iterations:
  assumes np: "\<And>ev. loop_event ev \<Longrightarrow> \<not> P ev"
  shows "filter P (trace (foldl (run_iteration e isolate) g rs)) = filter P (trace g)"
  by (induction rs arbitrary: g) (simp_all add: lf_run_iteration [OF np])

lemma lf_before_report:
  assumes np: "\<And>ev. loop_event ev \<Longrightarrow> \<not> P ev"
  shows "filter P (trace (before_report e isolate g)) =
         filter P (trace g) @
         filter P [StartLine (int (length (filter (selected g) (g_ezctest_registry g))))
                     (cfg_repeat (g_ezctest_config g)) isolate]"
  by (simp add: before_report_def lf_iterations [OF np] emit_def)

lemma run_all_tests_internal_eq:
  assumes "filter (selected g) (g_ezctest_registry g) \<noteq> []"
  shows "ezctest_run_all_tests_internal e g =
           print_summary
             (use_process_isolation e g (int (length (filter (selected g) (g_ezctest_registry g)))))
             (before_report e
               (use_process_isolation e g (int (length (filter (selected g) (g_ezctest_registry g))))) g)"
  using assms by (simp add: ezctest_run_all_tests_internal_def before_report_def Let_def)

lemma print_summary_trace:
  "trace (snd (print_summary isolate g)) =
     trace g @ [RanLine (sint (total_tests (g_ezctest_result g))),
                PassedLine (sint (passed_tests (g_ezctest_result g)))] @
     (if 0 < sint (failed_tests (g_ezctest_result g))
      then FailedCountLine (sint (failed_tests (g_ezctest_result g))) #
           map (\<lambda>t. FailedListLine (suite_name t) (test_name t))
             (filter failed (g_ezctest_registry g))
      else []) @
     (if isolate then []
      else [AssertionsLine (sint (total_assertions (g_ezctest_result g)))
              (sint (total_assertions (g_ezctest_result g) - failed_assertions (g_ezctest_result g)))
              (sint (failed_assertions (g_ezctest_result g)))]) @
     (if total_tests (g_ezctest_result g) = passed_tests (g_ezctest_result g)
      then [AllPassedLine (sint (total_tests (g_ezctest_result g)))] else [])"
  by (simp add: print_summary_def Let_def emit_def)

lemma print_summary_result:
  "g_ezctest_result (snd (print_summary isolate g)) = g_ezctest_result g \<and>
   g_ezctest_registry (snd (print_summary isolate g)) = g_ezctest_registry g \<and>
   fst (print_summary isolate g) = (if failed_tests (g_ezctest_result g) = 0 then 0 else 1)"
  by (simp add: print_summary_def Let_def emit_def)

lemma filter_failed_list:
  "(\<And>a b. \<not> P (FailedListLine a b)) \<Longrightarrow>
   filter P (map (\<lambda>t. FailedListLine (suite_name t) (test_name t)) ts) = []"
  by (induction ts) simp_all

lemma print_summary_filter:
  assumes "\<And>n. \<not> P (RanLine n)" "\<And>n. \<not> P (PassedLine n)" "\<And>n. \<not> P (FailedCountLine n)"
    "\<And>a b. \<not> P (FailedListLine a b)" "\<And>n. \<not> P (AllPassedLine n)"
  shows "filter P (trace (snd (print_summary True g))) = filter P (trace g)"
  using assms by (simp add: print_summary_trace filter_failed_list)

lemma start_line_not_loop: "loop_event ev \<Longrightarrow> \<not> is_start_line ev"
  by (cases ev) (simp_all add: loop_event_def is_start_line_def)

lemma assertion_line_not_loop: "loop_event ev \<Longrightarrow> \<not> is_assertion_line ev"
  by (cases ev) (simp_all add: loop_event_def is_assertion_line_def)

lemma print_summary_start_lines:
  "filter is_start_line (trace (snd (print_summary isolate g))) = filter is_start_line (trace g)"
  by (simp add: print_summary_trace filter_failed_list is_start_line_def)

lemma one_of_two_selected:
  "filter (selected one_of_two_globals) (g_ezctest_registry one_of_two_globals) = [sample_test]"
proof -
  have "ezctest_matches_filter ''Foo'' ''FastOne'' (Some ''Foo.*'')" by code_simp
  moreover have "\<not> ezctest_matches_filter ''Bar'' ''Other'' (Some ''Foo.*'')" by code_simp
  ultimately show ?thesis
    by (simp add: one_of_two_globals_def selected_def sample_test_def bar_test_def)
qed

lemma auto_pair_selected:
  "filter (selected auto_pair_globals) (g_ezctest_registry auto_pair_globals) =
     [sample_test, failing_test]"
  by (simp add: auto_pair_globals_def initial_globals_def initial_config_def selected_def
        ezctest_matches_filter_def sample_test_def failing_test_def)

text \<open>
  C5. A run with at least one matching test is the summary behind the loop run with
  isolation on when \<open>no_exec = 0\<close>, with isolation off when \<open>no_exec\<close> has another
  value than 0 and -1, and in automatic mode (\<open>no_exec = -1\<close>) with isolation on exactly
  when more than one enabled test matches the filter and no debugger is attached. The
  line that opens the run shows the number of matching tests and that decision. The
  decision as a function of the count is \<open>use_process_isolation\<close>.
\<close>

theorem isolation_decision:
  assumes run: "filter (selected g) (g_ezctest_registry g) \<noteq> []"
  shows "(cfg_no_exec (g_ezctest_config g) = 0 \<longrightarrow>
            ezctest_run_all_tests_internal e g = print_summary True (before_report e True g)) \<and>
         (cfg_no_exec (g_ezctest_config g) \<noteq> 0 \<and> cfg_no_exec (g_ezctest_config g) \<noteq> - 1 \<longrightarrow>
            ezctest_run_all_tests_internal e g = print_summary False (before_report e False g)) \<and>
         (cfg_no_exec (g_ezctest_config g) = - 1 \<longrightarrow>
            ezctest_run_all_tests_internal e g =
              (if 1 < length (filter (selected g) (g_ezctest_registry g)) \<and> \<not> debugger_attached e
               then print_summary True (before_report e True g)
               else print_summary False (before_report e False g))) \<and>
         filter is_start_line (trace (snd (ezctest_run_all_tests_internal e g))) =
           filter is_start_line (trace g) @
           [StartLine (int (length (filter (selected g) (g_ezctest_registry g))))
              (cfg_repeat (g_ezctest_config g))
              (if cfg_no_exec (g_ezctest_config g) = - 1
               then 1 < length (filter (selected g) (g_ezctest_registry g)) \<and> \<not> debugger_attached e
               else cfg_no_exec (g_ezctest_config g) = 0)] \<and>
         (cfg_no_exec (g_ezctest_config g) = 0 \<longrightarrow> use_process_isolation e g n) \<and>
         (cfg_no_exec (g_ezctest_config g) = 1 \<longrightarrow> \<not> use_process_isolation e g n) \<and>
         (cfg_no_exec (g_ezctest_config g) = - 1 \<longrightarrow>
            use_process_isolation e g n = (n > 1 \<and> \<not> debugger_attached e))"
proof -
  let ?n = "int (length (filter (selected g) (g_ezctest_registry g)))"
  let ?d = "if cfg_no_exec (g_ezctest_config g) = - 1
            then 1 < length (filter (selected g) (g_ezctest_registry g)) \<and> \<not> debugger_attached e
            else cfg_no_exec (g_ezctest_config g) = 0"
  have d: "use_process_isolation e g ?n = ?d"
    by (auto simp: use_process_isolation_def)
  have eq: "ezctest_run_all_tests_internal e g = print_summary ?d (before_report e ?d g)"
    using run_all_tests_internal_eq [OF run, of e] by (simp only: d)
  have sl: "filter is_start_line (trace (snd (ezctest_run_all_tests_internal e g))) =
      filter is_start_line (trace g) @ [StartLine ?n (cfg_repeat (g_ezctest_config g)) ?d]"
    using lf_before_report [of is_start_line e ?d g, OF start_line_not_loop]
    by (simp only: eq print_summary_start_lines) (simp add: is_start_line_def)
  have pol: "(cfg_no_exec (g_ezctest_config g) = 0 \<longrightarrow> use_process_isolation e g n) \<and>
         (cfg_no_exec (g_ezctest_config g) = 1 \<longrightarrow> \<not> use_process_isolation e g n) \<and>
         (cfg_no_exec (g_ezctest_config g) = - 1 \<longrightarrow>
            use_process_isolation e g n = (n > 1 \<and> \<not> debugger_attached e))"
    by (auto simp: use_process_isolation_def)
  have c1: "cfg_no_exec (g_ezctest_config g) = 0 \<longrightarrow>
            ezctest_run_all_tests_internal e g = print_summary True (before_report e True g)"
    using eq by simp
  have c2: "cfg_no_exec (g_ezctest_config g) \<noteq> 0 \<and> cfg_no_exec (g_ezctest_config g) \<noteq> - 1 \<longrightarrow>
            ezctest_run_all_tests_internal e g = print_summary False (before_report e False g)"
    using eq by simp
  have c3: "cfg_no_exec (g_ezctest_config g) = - 1 \<longrightarrow>
            ezctest_run_all_tests_internal e g =
              (if 1 < length (filter (selected g) (g_ezctest_registry g)) \<and> \<not> debugger_attached e
               then print_summary True (before_report e True g)
               else print_summary False (before_report e False g))"
  proof (cases "1 < length (filter (selected g) (g_ezctest_registry g)) \<and> \<not> debugger_attached e")
    case True
    then show ?thesis using eq by simp
  next
    case False
    then have "cfg_no_exec (g_ezctest_config g) = - 1 \<Longrightarrow> ?d = False" by simp
    then show ?thesis using eq False by auto
  qed
  from c1 c2 c3 sl pol show ?thesis by blast
qed

theorem isolation_decision_witness:
  "filter (selected one_of_two_globals) (g_ezctest_registry one_of_two_globals) \<noteq> [] \<and>
   length (g_ezctest_registry one_of_two_globals) = 2 \<and>
   filter is_start_line
     (trace (snd (ezctest_run_all_tests_internal env_children_exit one_of_two_globals)))
     = [StartLine 1 1 False] \<and>
   filter (selected auto_pair_globals) (g_ezctest_registry auto_pair_globals) \<noteq> [] \<and>
   filter is_start_line
     (trace (snd (ezctest_run_all_tests_internal env_children_exit auto_pair_globals)))
     = [StartLine 2 1 True] \<and>
   filter is_start_line
     (trace (snd (ezctest_run_all_tests_internal
        (env_children_exit\<lparr>debugger_attached := True\<rparr>) auto_pair_globals)))
     = [StartLine 2 1 False]"
proof -
  have r1: "filter (selected one_of_two_globals) (g_ezctest_registry one_of_two_globals) \<noteq> []"
    by (simp add: one_of_two_selected)
  have r2: "filter (selected auto_pair_globals) (g_ezctest_registry auto_pair_globals) \<noteq> []"
    by (simp add: auto_pair_selected)
  have c1: "cfg_no_exec (g_ezctest_config one_of_two_globals) = - 1"
      "cfg_repeat (g_ezctest_config one_of_two_globals) = 1"
      "trace one_of_two_globals = []" "length (g_ezctest_registry one_of_two_globals) = 2"
    by (simp_all add: one_of_two_globals_def initial_globals_def initial_config_def)
  have c2: "cfg_no_exec (g_ezctest_config auto_pair_globals) = - 1"
      "cfg_repeat (g_ezctest_config auto_pair_globals) = 1"
      "trace auto_pair_globals = []"
    by (simp_all add: auto_pair_globals_def initial_globals_def initial_config_def)
  have d: "\<not> debugger_attached env_children_exit"
      "debugger_attached (env_children_exit\<lparr>debugger_attached := True\<rparr>)"
    by (simp_all add: env_children_exit_def)
  have "filter is_start_line (trace (snd (ezctest_run_all_tests_internal env_children_exit one_of_two_globals))) =
      filter is_start_line (trace one_of_two_globals) @
      [StartLine (int (length (filter (selected one_of_two_globals) (g_ezctest_registry one_of_two_globals))))
         (cfg_repeat (g_ezctest_config one_of_two_globals))
         (if cfg_no_exec (g_ezctest_config one_of_two_globals) = - 1
          then 1 < length (filter (selected one_of_two_globals) (g_ezctest_registry one_of_two_globals)) \<and> \<not> debugger_attached env_children_exit
          else cfg_no_exec (g_ezctest_config one_of_two_globals) = 0)]"
    using isolation_decision [OF r1, of "env_children_exit"] by blast
  then have s1: "filter is_start_line
     (trace (snd (ezctest_run_all_tests_internal env_children_exit one_of_two_globals)))
     = [StartLine 1 1 False]"
    by (simp add: one_of_two_selected c1 d)
  have "filter is_start_line (trace (snd (ezctest_run_all_tests_internal env_children_exit auto_pair_globals))) =
      filter is_start_line (trace auto_pair_globals) @
      [StartLine (int (length (filter (selected auto_pair_globals) (g_ezctest_registry auto_pair_globals))))
         (cfg_repeat (g_ezctest_config auto_pair_globals))
         (if cfg_no_exec (g_ezctest_config auto_pair_globals) = - 1
          then 1 < length (filter (selected auto_pair_globals) (g_ezctest_registry auto_pair_globals)) \<and> \<not> debugger_attached env_children_exit
          else cfg_no_exec (g_ezctest_config auto_pair_globals) = 0)]"
    using isolation_decision [OF r2, of "env_children_exit"] by blast
  then have s2: "filter is_start_line
     (trace (snd (ezctest_run_all_tests_internal env_children_exit auto_pair_globals)))
     = [StartLine 2 1 True]"
    by (simp add: auto_pair_selected c2 d)
  have "filter is_start_line (trace (snd (ezctest_run_all_tests_internal (env_children_exit\<lparr>debugger_attached := True\<rparr>) auto_pair_globals))) =
      filter is_start_line (trace auto_pair_globals) @
      [StartLine (int (length (filter (selected auto_pair_globals) (g_ezctest_registry auto_pair_globals))))
         (cfg_repeat (g_ezctest_config auto_pair_globals))
         (if cfg_no_exec (g_ezctest_config auto_pair_globals) = - 1
          then 1 < length (filter (selected auto_pair_globals) (g_ezctest_registry auto_pair_globals)) \<and> \<not> debugger_attached (env_children_exit\<lparr>debugger_attached := True\<rparr>)
          else cfg_no_exec (g_ezctest_config auto_pair_globals) = 0)]"
    using isolation_decision [OF r2, of "(env_children_exit\<lparr>debugger_attached := True\<rparr>)"] by blast
  then have s3: "filter is_start_line
     (trace (snd (ezctest_run_all_tests_internal
        (env_children_exit\<lparr>debugger_attached := True\<rparr>) auto_pair_globals)))
     = [StartLine 2 1 False]"
    by (simp add: auto_pair_selected c2 d)
  from r1 r2 c1(4) s1 s2 s3 show ?thesis by blast
qed

section \<open>Process isolation: fallback and report\<close>




text \<open>
  C8. A run under process isolation ends with the summary of the test counts: the lines
  with the number of tests run and passed, then, when tests failed, the number of failed
  tests and one line for each test marked as failed, then the closing line when all
  passed; these are all the lines of the summary. No line about assertions is printed
  anywhere in the run, neither a count nor a note that the counts are not available:
  the statement that would print such a note is inside \<open>#if 0\<close>. The exit code is 0
  exactly when no test failed.
\<close>

theorem isolated_report_has_no_assertion_line:
  assumes run: "filter (selected g) (g_ezctest_registry g) \<noteq> []"
    and isolated: "use_process_isolation e g (int (length (filter (selected g) (g_ezctest_registry g))))"
  shows "ezctest_run_all_tests_internal e g = print_summary True (before_report e True g) \<and>
         trace (snd (ezctest_run_all_tests_internal e g)) =
           trace (before_report e True g) @
           [RanLine (sint (total_tests (g_ezctest_result (before_report e True g)))),
            PassedLine (sint (passed_tests (g_ezctest_result (before_report e True g))))] @
           (if 0 < sint (failed_tests (g_ezctest_result (before_report e True g)))
            then FailedCountLine (sint (failed_tests (g_ezctest_result (before_report e True g)))) #
                 map (\<lambda>t. FailedListLine (suite_name t) (test_name t))
                   (filter failed (g_ezctest_registry (before_report e True g)))
            else []) @
           (if total_tests (g_ezctest_result (before_report e True g)) =
               passed_tests (g_ezctest_result (before_report e True g))
            then [AllPassedLine (sint (total_tests (g_ezctest_result (before_report e True g))))]
            else []) \<and>
         filter is_assertion_line (trace (before_report e True g)) =
           filter is_assertion_line (trace g) \<and>
         filter is_assertion_line (trace (snd (ezctest_run_all_tests_internal e g))) =
           filter is_assertion_line (trace g) \<and>
         g_ezctest_result (snd (ezctest_run_all_tests_internal e g)) =
           g_ezctest_result (before_report e True g) \<and>
         g_ezctest_registry (snd (ezctest_run_all_tests_internal e g)) =
           g_ezctest_registry (before_report e True g) \<and>
         RanLine (sint (total_tests (g_ezctest_result (snd (ezctest_run_all_tests_internal e g)))))
           \<in> set (trace (snd (ezctest_run_all_tests_internal e g))) \<and>
         PassedLine (sint (passed_tests (g_ezctest_result (snd (ezctest_run_all_tests_internal e g)))))
           \<in> set (trace (snd (ezctest_run_all_tests_internal e g))) \<and>
         (0 < sint (failed_tests (g_ezctest_result (snd (ezctest_run_all_tests_internal e g)))) \<longrightarrow>
            FailedCountLine (sint (failed_tests (g_ezctest_result (snd (ezctest_run_all_tests_internal e g)))))
              \<in> set (trace (snd (ezctest_run_all_tests_internal e g))) \<and>
            (\<forall>t \<in> set (g_ezctest_registry (snd (ezctest_run_all_tests_internal e g))).
               failed t \<longrightarrow> FailedListLine (suite_name t) (test_name t)
                 \<in> set (trace (snd (ezctest_run_all_tests_internal e g))))) \<and>
         fst (ezctest_run_all_tests_internal e g) =
           (if failed_tests (g_ezctest_result (snd (ezctest_run_all_tests_internal e g))) = 0
            then 0 else 1)"
proof -
  let ?b = "before_report e True g"
  let ?r = "g_ezctest_result ?b"
  let ?tail = "[RanLine (sint (total_tests ?r)), PassedLine (sint (passed_tests ?r))] @
           (if 0 < sint (failed_tests ?r)
            then FailedCountLine (sint (failed_tests ?r)) #
                 map (\<lambda>t. FailedListLine (suite_name t) (test_name t))
                   (filter failed (g_ezctest_registry ?b))
            else []) @
           (if total_tests ?r = passed_tests ?r then [AllPassedLine (sint (total_tests ?r))] else [])"
  have eq: "ezctest_run_all_tests_internal e g = print_summary True ?b"
    using run_all_tests_internal_eq [OF run, of e] isolated by simp
  have tr: "trace (snd (print_summary True ?b)) = trace ?b @ ?tail"
    by (simp add: print_summary_trace)
  have al0: "filter is_assertion_line (trace ?b) = filter is_assertion_line (trace g)"
    using lf_before_report [of is_assertion_line e True g, OF assertion_line_not_loop]
    by (simp add: is_assertion_line_def)
  have al: "filter is_assertion_line (trace (snd (print_summary True ?b))) =
      filter is_assertion_line (trace g)"
    using al0 by (simp add: print_summary_filter is_assertion_line_def)
  have res: "g_ezctest_result (snd (print_summary True ?b)) = ?r"
    and reg: "g_ezctest_registry (snd (print_summary True ?b)) = g_ezctest_registry ?b"
    and ex: "fst (print_summary True ?b) = (if failed_tests ?r = 0 then 0 else 1)"
    by (simp_all add: print_summary_result)
  have m1: "RanLine (sint (total_tests ?r)) \<in> set (trace (snd (print_summary True ?b)))"
    and m2: "PassedLine (sint (passed_tests ?r)) \<in> set (trace (snd (print_summary True ?b)))"
    by (simp_all add: tr)
  have m3: "0 < sint (failed_tests ?r) \<longrightarrow>
      FailedCountLine (sint (failed_tests ?r)) \<in> set (trace (snd (print_summary True ?b))) \<and>
      (\<forall>t \<in> set (g_ezctest_registry ?b).
         failed t \<longrightarrow> FailedListLine (suite_name t) (test_name t)
            \<in> set (trace (snd (print_summary True ?b))))"
    by (auto simp add: tr)
  show ?thesis
    unfolding eq res reg using tr al0 al m1 m2 m3 ex by blast
qed

text \<open>
  C8 as stated asks for an explicit mark that the assertion totals are unavailable. The
  complete output of a run of one passing test under forced isolation has no such line.
\<close>

theorem isolated_report_counterexample:
  "trace (snd (ezctest_run_all_tests_internal env_children_exit isolated_globals)) =
     [StartLine 1 1 True, RunLine ''Foo'' ''FastOne'', StmtExecuted 1, OkLine ''Foo'' ''FastOne'',
      RanLine 1, PassedLine 1, AllPassedLine 1] \<and>
   AssertionsNALine \<notin> set (trace (snd (ezctest_run_all_tests_internal env_children_exit isolated_globals)))"
proof -
  have "trace (snd (ezctest_run_all_tests_internal env_children_exit isolated_globals)) =
     [StartLine 1 1 True, RunLine ''Foo'' ''FastOne'', StmtExecuted 1, OkLine ''Foo'' ''FastOne'',
      RanLine 1, PassedLine 1, AllPassedLine 1]"
    by code_simp
  then show ?thesis by simp
qed

theorem isolated_report_has_no_assertion_line_witness:
  "filter (selected isolated_pair_globals) (g_ezctest_registry isolated_pair_globals) \<noteq> [] \<and>
   use_process_isolation env_children_exit isolated_pair_globals
     (int (length (filter (selected isolated_pair_globals)
        (g_ezctest_registry isolated_pair_globals)))) \<and>
   trace (snd (ezctest_run_all_tests_internal env_children_exit isolated_pair_globals)) =
     [StartLine 2 1 True, RunLine ''Foo'' ''FastOne'', StmtExecuted 1,
      OkLine ''Foo'' ''FastOne'', RunLine ''Foo'' ''Broken'', StmtExecuted 1,
      FailureLine, TerminatedByAssertLine, FailedLine ''Foo'' ''Broken'',
      RanLine 2, PassedLine 1, FailedCountLine 1, FailedListLine ''Foo'' ''Broken''] \<and>
   filter is_assertion_line
     (trace (snd (ezctest_run_all_tests_internal env_children_exit isolated_pair_globals))) = [] \<and>
   fst (ezctest_run_all_tests_internal env_children_exit isolated_pair_globals) = 1"
proof -
  let ?g = isolated_pair_globals
  let ?e = env_children_exit
  let ?b = "before_report ?e True ?g"
  let ?run = "ezctest_run_all_tests_internal ?e ?g"
  have s: "filter (selected ?g) (g_ezctest_registry ?g) = [sample_test, failing_test]"
    by (simp add: isolated_pair_globals_def initial_config_def selected_def
          ezctest_matches_filter_def sample_test_def failing_test_def)
  then have r: "filter (selected ?g) (g_ezctest_registry ?g) \<noteq> []" by simp
  have i: "use_process_isolation ?e ?g (int (length (filter (selected ?g) (g_ezctest_registry ?g))))"
    by (simp add: use_process_isolation_def isolated_pair_globals_def)
  note th = isolated_report_has_no_assertion_line [OF r i]
  have t0: "trace ?g = []"
    by (simp add: isolated_pair_globals_def initial_globals_def)
  have b1: "trace ?b = [StartLine 2 1 True, RunLine ''Foo'' ''FastOne'', StmtExecuted 1,
      OkLine ''Foo'' ''FastOne'', RunLine ''Foo'' ''Broken'', StmtExecuted 1,
      FailureLine, TerminatedByAssertLine, FailedLine ''Foo'' ''Broken'']"
    by code_simp
  have b2: "sint (total_tests (g_ezctest_result ?b)) = 2"
      "sint (passed_tests (g_ezctest_result ?b)) = 1"
      "sint (failed_tests (g_ezctest_result ?b)) = 1"
    by code_simp+
  have b3: "total_tests (g_ezctest_result ?b) \<noteq> passed_tests (g_ezctest_result ?b)"
      "failed_tests (g_ezctest_result ?b) \<noteq> 0"
    by code_simp+
  have b4: "map (\<lambda>t. FailedListLine (suite_name t) (test_name t))
              (filter failed (g_ezctest_registry ?b)) = [FailedListLine ''Foo'' ''Broken'']"
    by code_simp
  have "trace (snd ?run) =
           trace ?b @
           [RanLine (sint (total_tests (g_ezctest_result ?b))),
            PassedLine (sint (passed_tests (g_ezctest_result ?b)))] @
           (if 0 < sint (failed_tests (g_ezctest_result ?b))
            then FailedCountLine (sint (failed_tests (g_ezctest_result ?b))) #
                 map (\<lambda>t. FailedListLine (suite_name t) (test_name t))
                   (filter failed (g_ezctest_registry ?b))
            else []) @
           (if total_tests (g_ezctest_result ?b) = passed_tests (g_ezctest_result ?b)
            then [AllPassedLine (sint (total_tests (g_ezctest_result ?b)))]
            else [])"
    using th by blast
  then have c1: "trace (snd ?run) =
     [StartLine 2 1 True, RunLine ''Foo'' ''FastOne'', StmtExecuted 1,
      OkLine ''Foo'' ''FastOne'', RunLine ''Foo'' ''Broken'', StmtExecuted 1,
      FailureLine, TerminatedByAssertLine, FailedLine ''Foo'' ''Broken'',
      RanLine 2, PassedLine 1, FailedCountLine 1, FailedListLine ''Foo'' ''Broken'']"
    by (simp add: b1 b2 b3 b4)
  have "filter is_assertion_line (trace (snd ?run)) = filter is_assertion_line (trace ?g)"
    using th by blast
  then have c2: "filter is_assertion_line (trace (snd ?run)) = []" by (simp add: t0)
  have "g_ezctest_result (snd ?run) = g_ezctest_result ?b" using th by blast
  moreover have "fst ?run = (if failed_tests (g_ezctest_result (snd ?run)) = 0 then 0 else 1)"
    using th by blast
  ultimately have c3: "fst ?run = 1" by (simp add: b3)
  from r i c1 c2 c3 show ?thesis by blast
qed

end
